theory Spec2Isabelle
  imports Main "HOL-Library.Product_Lexorder"
begin

section \<open>Persistence: the party tables of database.go\<close>

text \<open>
  The relational store is modelled by the three tables the party code reads and writes.
  A table is the list of its rows in insertion order. \<open>partyMembers.id\<close> is the
  auto-increment key of a membership row, so it records the join order. The
  \<open>players\<close> table is keyed by uuid and is a map from the uuid to the rank column.
  The \<open>owner\<close> column can hold SQL NULL (the sub-select of
  \<open>assumeNextPartyOwner\<close> yields NULL when it selects no row): \<open>None\<close>.
\<close>

type_synonym uuid = string

record Party =
  p_id :: int
  p_game :: string
  p_owner :: "uuid option"
  p_public :: bool
  p_pass :: string

record PartyMemberRow =
  pm_id :: nat
  pm_partyId :: int
  pm_uuid :: uuid

record Database =
  gameName :: string
  parties :: "Party list"
  partyMembers :: "PartyMemberRow list"
  players :: "uuid \<rightharpoonup> int"
  nextPmId :: nat

datatype db_error = ErrNoRows | ErrScanNull

text \<open>\<open>JOIN parties p ON p.id = pm.partyId ... AND p.game = ?\<close>\<close>

definition in_game :: "Database \<Rightarrow> int \<Rightarrow> bool" where
  "in_game db pid = (\<exists>p \<in> set (parties db). p_id p = pid \<and> p_game p = gameName db)"

text \<open>
  \<open>readPlayerPartyId\<close>: the first membership row of the player in a party of this
  game; no row is party id 0, not an error.
\<close>

definition readPlayerPartyId :: "Database \<Rightarrow> uuid \<Rightarrow> int" where
  "readPlayerPartyId db u =
     (case filter (\<lambda>m. pm_uuid m = u \<and> in_game db (pm_partyId m)) (partyMembers db) of
        [] \<Rightarrow> 0
      | m # _ \<Rightarrow> pm_partyId m)"

definition find_party :: "Database \<Rightarrow> int \<Rightarrow> Party option" where
  "find_party db pid = find (\<lambda>p. p_id p = pid) (parties db)"

text \<open>\<open>readPartyOwnerUuid\<close>: scanning a NULL owner into a Go string is an error.\<close>

definition readPartyOwnerUuid :: "Database \<Rightarrow> int \<Rightarrow> db_error + uuid" where
  "readPartyOwnerUuid db pid =
     (case find_party db pid of
        None \<Rightarrow> Inl ErrNoRows
      | Some p \<Rightarrow> (case p_owner p of None \<Rightarrow> Inl ErrScanNull | Some u \<Rightarrow> Inr u))"

definition readPartyPublic :: "Database \<Rightarrow> int \<Rightarrow> db_error + bool" where
  "readPartyPublic db pid =
     (case find_party db pid of None \<Rightarrow> Inl ErrNoRows | Some p \<Rightarrow> Inr (p_public p))"

definition readPartyPass :: "Database \<Rightarrow> int \<Rightarrow> db_error + string" where
  "readPartyPass db pid =
     (case find_party db pid of None \<Rightarrow> Inl ErrNoRows | Some p \<Rightarrow> Inr (p_pass p))"

text \<open>\<open>createPlayerParty\<close>: \<open>INSERT INTO partyMembers (partyId, uuid)\<close>.\<close>

definition createPlayerParty :: "int \<Rightarrow> uuid \<Rightarrow> Database \<Rightarrow> Database" where
  "createPlayerParty pid u db =
     db\<lparr>partyMembers := partyMembers db @ [\<lparr>pm_id = nextPmId db, pm_partyId = pid, pm_uuid = u\<rparr>],
        nextPmId := Suc (nextPmId db)\<rparr>"

text \<open>\<open>clearPlayerParty\<close>: deletes the player's membership rows in parties of this game.\<close>

definition clearPlayerParty :: "uuid \<Rightarrow> Database \<Rightarrow> Database" where
  "clearPlayerParty u db =
     db\<lparr>partyMembers :=
          filter (\<lambda>m. \<not> (pm_uuid m = u \<and> in_game db (pm_partyId m))) (partyMembers db)\<rparr>"

text \<open>
  The rows \<open>readPartyMemberUuids\<close> selects: the party's membership rows that join a
  \<open>players\<close> row, \<open>ORDER BY pd.rank DESC, pm.id\<close>.
\<close>

definition member_key :: "Database \<Rightarrow> PartyMemberRow \<Rightarrow> int \<times> nat" where
  "member_key db m = (- the (players db (pm_uuid m)), pm_id m)"

definition orderedPartyMembers :: "Database \<Rightarrow> int \<Rightarrow> PartyMemberRow list" where
  "orderedPartyMembers db pid =
     sort_key (member_key db)
       (filter (\<lambda>m. pm_partyId m = pid \<and> players db (pm_uuid m) \<noteq> None) (partyMembers db))"

definition readPartyMemberUuids :: "Database \<Rightarrow> int \<Rightarrow> uuid list" where
  "readPartyMemberUuids db pid = map pm_uuid (orderedPartyMembers db pid)"

definition readPartyMemberCount :: "Database \<Rightarrow> int \<Rightarrow> nat" where
  "readPartyMemberCount db pid = length (filter (\<lambda>m. pm_partyId m = pid) (partyMembers db))"

definition setPartyOwner :: "int \<Rightarrow> uuid option \<Rightarrow> Database \<Rightarrow> Database" where
  "setPartyOwner pid u db =
     db\<lparr>parties := map (\<lambda>p. if p_id p = pid then p\<lparr>p_owner := u\<rparr> else p) (parties db)\<rparr>"

text \<open>
  \<open>assumeNextPartyOwner\<close>: the first uuid of \<open>readPartyMemberUuids\<close> that is a key of
  \<open>hubClients\<close> (the parameter \<open>online\<close>); the Go loop leaves the empty string when
  there is none, and the \<open>UPDATE\<close> of the else branch then takes the first row of the
  same ordering (\<open>LIMIT 1\<close>), NULL when there is no row.
\<close>

definition nextOnlinePlayerUuid :: "(uuid \<Rightarrow> bool) \<Rightarrow> uuid list \<Rightarrow> uuid" where
  "nextOnlinePlayerUuid online us = (case find online us of None \<Rightarrow> [] | Some u \<Rightarrow> u)"

definition assumeNextPartyOwner :: "(uuid \<Rightarrow> bool) \<Rightarrow> int \<Rightarrow> Database \<Rightarrow> Database" where
  "assumeNextPartyOwner online pid db =
     (let partyMemberUuids = readPartyMemberUuids db pid;
          nxt = nextOnlinePlayerUuid online partyMemberUuids
      in if nxt \<noteq> [] then setPartyOwner pid (Some nxt) db
         else setPartyOwner pid
                (case partyMemberUuids of [] \<Rightarrow> None | u # _ \<Rightarrow> Some u) db)"

text \<open>\<open>checkDeleteOrphanedParty\<close>: a party without membership rows is deleted.\<close>

definition checkDeleteOrphanedParty :: "int \<Rightarrow> Database \<Rightarrow> bool \<times> Database" where
  "checkDeleteOrphanedParty pid db =
     (if readPartyMemberCount db pid = 0
      then (True, db\<lparr>parties := filter (\<lambda>p. p_id p \<noteq> pid) (parties db)\<rparr>)
      else (False, db))"

definition deletePartyAndMembers :: "int \<Rightarrow> Database \<Rightarrow> Database" where
  "deletePartyAndMembers pid db =
     db\<lparr>partyMembers := filter (\<lambda>m. pm_partyId m \<noteq> pid) (partyMembers db),
        parties := filter (\<lambda>p. p_id p \<noteq> pid) (parties db)\<rparr>"

text \<open>\<open>handlePartyMemberLeave\<close> (the party API).\<close>

definition handlePartyMemberLeave ::
  "(uuid \<Rightarrow> bool) \<Rightarrow> int \<Rightarrow> uuid \<Rightarrow> Database \<Rightarrow> db_error + Database" where
  "handlePartyMemberLeave online partyId playerUuid db =
     (case readPartyOwnerUuid db partyId of
        Inl e \<Rightarrow> Inl e
      | Inr ownerUuid \<Rightarrow>
          (let db1 = clearPlayerParty playerUuid db;
               (deleted, db2) = checkDeleteOrphanedParty partyId db1
           in if \<not> deleted \<and> playerUuid = ownerUuid
              then Inr (assumeNextPartyOwner online partyId db2)
              else Inr db2))"

section \<open>The party API: handleParty\<close>

text \<open>
  The handler writes to an \<open>http.ResponseWriter\<close>: the status is fixed by the first
  \<open>WriteHeader\<close> or, failing that, by the first \<open>Write\<close> (200); later calls of
  \<open>WriteHeader\<close> change nothing and every \<open>Write\<close> appends to the body.
\<close>

type_synonym writer = "nat option \<times> string"

definition WriteHeader :: "nat \<Rightarrow> writer \<Rightarrow> writer" where
  "WriteHeader c w = (case fst w of None \<Rightarrow> (Some c, snd w) | Some _ \<Rightarrow> w)"

definition Write :: "string \<Rightarrow> writer \<Rightarrow> writer" where
  "Write b w = ((case fst w of None \<Rightarrow> Some 200 | Some c \<Rightarrow> Some c), snd w @ b)"

definition handleError :: "string \<Rightarrow> writer \<Rightarrow> writer" where
  "handleError payload w = Write payload (WriteHeader 400 w)"

definition handleInternalError :: "writer \<Rightarrow> writer" where
  "handleInternalError w = Write ''400 - Bad Request'' (WriteHeader 400 w)"

text \<open>
  \<open>strconv.Atoi\<close>: an optional sign and at least one decimal digit, within the range of
  a 64-bit \<open>int\<close>.
\<close>

definition is_digit :: "char \<Rightarrow> bool" where
  "is_digit c = (48 \<le> (of_char c :: nat) \<and> (of_char c :: nat) \<le> 57)"

fun parse_digits :: "nat \<Rightarrow> string \<Rightarrow> nat option" where
  "parse_digits n [] = Some n"
| "parse_digits n (c # cs) =
     (if is_digit c then parse_digits (n * 10 + (of_char c - 48)) cs else None)"

definition Atoi :: "string \<Rightarrow> int option" where
  "Atoi s =
     (let (neg, ds) =
            (case s of
               [] \<Rightarrow> (False, [])
             | c # cs \<Rightarrow> if c = CHR ''-'' then (True, cs)
                        else if c = CHR ''+'' then (False, cs) else (False, s))
      in if ds = [] then None
         else (case parse_digits 0 ds of
                 None \<Rightarrow> None
               | Some n \<Rightarrow>
                   (let v = (if neg then - int n else int n)
                    in if - (2 ^ 63) \<le> v \<and> v \<le> 2 ^ 63 - 1 then Some v else None)))"

text \<open>
  A request as \<open>handleParty\<close> sees it after the identity has been resolved from the
  \<open>Authorization\<close> header (\<open>getOrCreatePlayerData\<close> and
  \<open>getPlayerDataFromToken\<close> are not part of the sources): the requester's uuid,
  rank (0 without a token) and ban flag, and the URL query, a map from a parameter's name
  to its values. \<open>param\<close> is the test \<open>!ok || len(p) < 1\<close> followed by \<open>p[0]\<close>.
\<close>

record PartyRequest =
  rq_uuid :: uuid
  rq_rank :: int
  rq_banned :: bool
  rq_query :: "string \<rightharpoonup> string list"

definition param :: "PartyRequest \<Rightarrow> string \<Rightarrow> string option" where
  "param rq k = (case rq_query rq k of None \<Rightarrow> None | Some [] \<Rightarrow> None | Some (v # _) \<Rightarrow> Some v)"

text \<open>
  The password gate of \<open>join\<close>, entered only when \<open>rank == 0\<close>. The result is the
  writer and whether the handler returned. The branch for a failing \<open>getPartyPass\<close>
  writes the internal error and does not return, as in the source; the password it
  compares is then the empty string.
\<close>

definition join_gate :: "PartyRequest \<Rightarrow> int \<Rightarrow> Database \<Rightarrow> writer \<Rightarrow> writer \<times> bool" where
  "join_gate rq partyId db w =
     (case readPartyPublic db partyId of
        Inl e \<Rightarrow> (handleInternalError w, True)
      | Inr public \<Rightarrow>
          if \<not> public then
            (case param rq ''pass'' of
               None \<Rightarrow> (handleError ''pass not specified'' w, True)
             | Some pass \<Rightarrow>
                 (let (partyPass, w1) =
                        (case readPartyPass db partyId of
                           Inl e \<Rightarrow> ([], handleInternalError w)
                         | Inr pp \<Rightarrow> (pp, w))
                  in if partyPass \<noteq> [] \<and> pass \<noteq> partyPass
                     then (Write ''401 - Unauthorized'' (WriteHeader 401 w1), True)
                     else (w1, False)))
          else (w, False))"

definition party_join :: "PartyRequest \<Rightarrow> Database \<Rightarrow> writer \<Rightarrow> writer \<times> Database" where
  "party_join rq db w =
     (case param rq ''partyId'' of
        None \<Rightarrow> (handleError ''partyId not specified'' w, db)
      | Some partyIdParam \<Rightarrow>
          (case Atoi partyIdParam of
             None \<Rightarrow> (handleError ''invalid partyId value'' w, db)
           | Some partyId \<Rightarrow>
               (let (w1, returned) =
                      (if rq_rank rq = 0 then join_gate rq partyId db w else (w, False))
                in if returned then (w1, db)
                   else if readPlayerPartyId db (rq_uuid rq) > 0
                   then (handleError ''player already in a party'' w1, db)
                   else (Write ''ok'' w1, createPlayerParty partyId (rq_uuid rq) db))))"

definition party_leave ::
  "(uuid \<Rightarrow> bool) \<Rightarrow> PartyRequest \<Rightarrow> Database \<Rightarrow> writer \<Rightarrow> writer \<times> Database" where
  "party_leave online rq db w =
     (let partyId = readPlayerPartyId db (rq_uuid rq)
      in if partyId = 0 then (handleError ''player not in a party'' w, db)
         else (case handlePartyMemberLeave online partyId (rq_uuid rq) db of
                 Inl e \<Rightarrow> (handleInternalError w, db)
               | Inr db' \<Rightarrow> (Write ''ok'' w, db')))"

text \<open>
  \<open>kick\<close> and \<open>transfer\<close> share one branch. \<open>clearPlayerParty\<close> and
  \<open>setPartyOwner\<close> are single statements on the store and do not fail here.
\<close>

definition party_kick_transfer ::
  "bool \<Rightarrow> PartyRequest \<Rightarrow> Database \<Rightarrow> writer \<Rightarrow> writer \<times> Database" where
  "party_kick_transfer kick rq db w =
     (let partyId = readPlayerPartyId db (rq_uuid rq)
      in if partyId = 0 then (handleError ''player not in a party'' w, db)
         else (case readPartyOwnerUuid db partyId of
                 Inl e \<Rightarrow> (handleInternalError w, db)
               | Inr ownerUuid \<Rightarrow>
                   if ownerUuid \<noteq> rq_uuid rq
                   then (handleError (if kick then ''attempted party kick non-owner''
                                      else ''attempted owner transfer from non-owner'') w, db)
                   else (case param rq ''player'' of
                           None \<Rightarrow> (handleError ''player not specified'' w, db)
                         | Some playerUuid \<Rightarrow>
                             if readPlayerPartyId db playerUuid \<noteq> partyId
                             then (handleError
                                     (if kick then ''specified player to kick not in same party''
                                      else ''specified player to transfer owner not in same party'')
                                     w, db)
                             else (Write ''ok'' w,
                                   if kick then clearPlayerParty playerUuid db
                                   else setPartyOwner partyId (Some playerUuid) db))))"

definition party_disband :: "PartyRequest \<Rightarrow> Database \<Rightarrow> writer \<Rightarrow> writer \<times> Database" where
  "party_disband rq db w =
     (let partyId = readPlayerPartyId db (rq_uuid rq)
      in case readPartyOwnerUuid db partyId of
           Inl e \<Rightarrow> (handleInternalError w, db)
         | Inr ownerUuid \<Rightarrow>
             if ownerUuid \<noteq> rq_uuid rq
             then (handleError ''attempted party disband from non-owner'' w, db)
             else (Write ''ok'' w, deletePartyAndMembers partyId db))"

text \<open>
  \<open>handleParty\<close>: the ban check, the \<open>command\<close> parameter and the switch. The branches
  \<open>id\<close>, \<open>list\<close>, \<open>description\<close>, \<open>create\<close> and \<open>update\<close> (JSON output and the
  game's asset tables) are outside this model: \<open>None\<close>.
\<close>

definition handleParty ::
  "(uuid \<Rightarrow> bool) \<Rightarrow> PartyRequest \<Rightarrow> Database \<Rightarrow> (writer \<times> Database) option" where
  "handleParty online rq db =
     (let w = (None, []) in
      if rq_banned rq then Some (handleError ''player is banned'' w, db)
      else (case param rq ''command'' of
              None \<Rightarrow> Some (handleError ''command not specified'' w, db)
            | Some c \<Rightarrow>
                if c \<in> set [''id'', ''list'', ''description'', ''create'', ''update''] then None
                else if c = ''join'' then Some (party_join rq db w)
                else if c = ''leave'' then Some (party_leave online rq db w)
                else if c = ''kick'' \<or> c = ''transfer''
                then Some (party_kick_transfer (c = ''kick'') rq db w)
                else if c = ''disband'' then Some (party_disband rq db w)
                else Some (handleError ''unknown command'' w, db)))"

section \<open>The session actor: session.go\<close>

text \<open>
  \<open>Session.run\<close> is one goroutine that owns the registry; each case of its
  \<open>select\<close> is a function from the state before to the state after. Client objects
  live in a store (\<open>heap\<close>) addressed by a reference, the model of a
  \<open>*SessionClient\<close>; \<open>nextRef\<close> is the next fresh address. \<open>clients\<close> holds the
  keys of the map \<open>s.clients\<close>, \<open>ids\<close> is the map \<open>s.id\<close> (a missing key reads
  \<open>false\<close>), \<open>sessionClients\<close> the package-level map of that name. Everything
  else the handlers and the store touch is \<open>world\<close>.
\<close>

type_synonym cref = nat

text \<open>
  A buffered channel of byte strings. Its reader (\<open>writePump\<close>) is another goroutine
  and is not part of the model, so a buffer only grows here.
\<close>

record Chan =
  buf :: "string list"
  closed :: bool
  capacity :: nat

definition make_chan :: "nat \<Rightarrow> Chan" where
  "make_chan n = \<lparr>buf = [], closed = False, capacity = n\<rparr>"

datatype fault = SendOnClosedChannel | CloseOfClosedChannel | Blocked

datatype send_result = Sent Chan | WouldBlock | SendPanics

text \<open>
  The send of a \<open>select\<close> with a \<open>default\<close> case: it panics on a closed channel,
  enqueues when the buffer has room and takes the default case otherwise.
\<close>

definition try_send :: "string \<Rightarrow> Chan \<Rightarrow> send_result" where
  "try_send data ch =
     (if closed ch then SendPanics
      else if length (buf ch) < capacity ch then Sent (ch\<lparr>buf := buf ch @ [data]\<rparr>)
      else WouldBlock)"

text \<open>
  A plain send \<open>ch <- data\<close>: with a full buffer the sender waits for the reader, which
  the model does not have: \<open>Blocked\<close>.
\<close>

definition send_blocking :: "string \<Rightarrow> Chan \<Rightarrow> fault + Chan" where
  "send_blocking data ch =
     (case try_send data ch of
        SendPanics \<Rightarrow> Inl SendOnClosedChannel
      | WouldBlock \<Rightarrow> Inl Blocked
      | Sent ch' \<Rightarrow> Inr ch')"

definition close_chan :: "Chan \<Rightarrow> fault + Chan" where
  "close_chan ch = (if closed ch then Inl CloseOfClosedChannel else Inr (ch\<lparr>closed := True\<rparr>))"

text \<open>
  The fields of \<open>SessionClient\<close> that the struct literal of \<open>run\<close> sets, but for the
  transport handle \<open>conn\<close> and \<open>accessType\<close>, which nothing in session.go reads
  afterwards.
\<close>

record SessionClient =
  c_send :: Chan
  c_ip :: string
  c_id :: int
  c_online :: bool
  c_account :: bool
  c_name :: string
  c_uuid :: uuid
  c_rank :: int
  c_badge :: string
  c_spriteName :: string
  c_spriteIndex :: int
  c_systemName :: string

datatype LogLine = Log string string string nat | ErrLog string string string

record 'w Session =
  heap :: "cref \<Rightarrow> SessionClient"
  nextRef :: cref
  clients :: "cref list"
  ids :: "int \<Rightarrow> bool"
  sessionClients :: "uuid \<rightharpoonup> cref"
  logs :: "LogLine list"
  world :: 'w

definition writeLog :: "string \<Rightarrow> string \<Rightarrow> string \<Rightarrow> nat \<Rightarrow> 'w Session \<Rightarrow> 'w Session" where
  "writeLog ip loc payload code s = s\<lparr>logs := logs s @ [Log ip loc payload code]\<rparr>"

definition writeErrLog :: "string \<Rightarrow> string \<Rightarrow> string \<Rightarrow> 'w Session \<Rightarrow> 'w Session" where
  "writeErrLog ip loc payload s = s\<lparr>logs := logs s @ [ErrLog ip loc payload]\<rparr>"

text \<open>
  What session.go uses and the sources do not hold: the constants \<open>maxID\<close>,
  \<open>delim\<close> and \<open>mdelim\<close>, and the functions \<open>btoa\<close> and
  \<open>updatePlayerGameData\<close> (a write to the store).
\<close>

record 'w Config =
  maxID :: int
  delim :: string
  mdelim :: string
  btoa :: "bool \<Rightarrow> string"
  updatePlayerGameData :: "SessionClient \<Rightarrow> 'w \<Rightarrow> 'w"

text \<open>
  A connection request (\<open>ConnInfo\<close>) together with what \<open>getPlayerInfo\<close> and
  \<open>readPlayerGameData\<close> return for it; \<open>pi_shadowBanned\<close> and \<open>pi_banned\<close> are
  the values of \<open>accessType.isShadowBanned()\<close> and \<open>accessType.isBanned()\<close>.
\<close>

record ConnInfo =
  ci_Ip :: string
  ci_Token :: string
  ci_Online :: bool

record PlayerInfo =
  pi_uuid :: uuid
  pi_name :: string
  pi_rank :: int
  pi_badge :: string
  pi_shadowBanned :: bool
  pi_banned :: bool
  pi_account :: bool
  pi_systemName :: string
  pi_spriteName :: string
  pi_spriteIndex :: int

text \<open>\<open>strconv.Itoa\<close>.\<close>

function nat_digits :: "nat \<Rightarrow> string" where
  "nat_digits n =
     (if n < 10 then [''0123456789'' ! n]
      else nat_digits (n div 10) @ [''0123456789'' ! (n mod 10)])"
  by pat_completeness auto
termination
  by (relation "measure (\<lambda>n. n)") auto

declare nat_digits.simps [simp del]

definition Itoa :: "int \<Rightarrow> string" where
  "Itoa i = (if i < 0 then CHR ''-'' # nat_digits (nat (- i)) else nat_digits (nat i))"

text \<open>
  The id scan of \<open>run\<close>: \<open>for i := 1; i <= maxID; i++\<close>, the first \<open>i\<close> with
  \<open>!s.id[i]\<close>; 0 when the loop ends without one.
\<close>

function scan_id :: "(int \<Rightarrow> bool) \<Rightarrow> int \<Rightarrow> int \<Rightarrow> int" where
  "scan_id used mx i =
     (if i \<le> mx then (if \<not> used i then i else scan_id used mx (i + 1)) else 0)"
  by pat_completeness auto
termination
  by (relation "measure (\<lambda>(used, mx, i). nat (mx + 1 - i))") auto

declare scan_id.simps [simp del]

definition same_ip_count :: "'w Session \<Rightarrow> string \<Rightarrow> nat" where
  "same_ip_count s ip = length (filter (\<lambda>c. c_ip (heap s c) = ip) (clients s))"

definition hello :: "'w Config \<Rightarrow> int \<Rightarrow> PlayerInfo \<Rightarrow> string" where
  "hello cfg i info =
     ''s'' @ delim cfg @ Itoa i @ delim cfg @ pi_uuid info @ delim cfg @ Itoa (pi_rank info)
       @ delim cfg @ btoa cfg (pi_account info) @ delim cfg @ pi_badge info"

text \<open>
  The client \<open>run\<close> builds. Its channel has capacity 256 and is empty, so the send of
  the \<open>s\<close> message that follows cannot block: the client is registered with that
  message in its buffer.
\<close>

definition new_client :: "'w Config \<Rightarrow> ConnInfo \<Rightarrow> bool \<Rightarrow> PlayerInfo \<Rightarrow> int \<Rightarrow> SessionClient" where
  "new_client cfg conn online info i =
     \<lparr>c_send = (make_chan 256)\<lparr>buf := [hello cfg i info]\<rparr>,
      c_ip = ci_Ip conn, c_id = i, c_online = online, c_account = pi_account info,
      c_name = pi_name info, c_uuid = pi_uuid info, c_rank = pi_rank info,
      c_badge = pi_badge info, c_spriteName = pi_spriteName info,
      c_spriteIndex = pi_spriteIndex info, c_systemName = pi_systemName info\<rparr>"

definition register :: "cref \<Rightarrow> SessionClient \<Rightarrow> 'w Session \<Rightarrow> 'w Session" where
  "register r c s =
     s\<lparr>heap := (heap s)(r := c), nextRef := Suc r,
       ids := (ids s)(c_id c := True),
       clients := clients s @ [r],
       sessionClients := (sessionClients s)(c_uuid c \<mapsto> r)\<rparr>"

text \<open>
  The case \<open>conn := <-s.connect\<close> of \<open>run\<close>; \<open>admit\<close> is the part after the
  ban checks, with the value \<open>conn.Online\<close> has by then.
\<close>

definition admit ::
  "'w Config \<Rightarrow> ConnInfo \<Rightarrow> bool \<Rightarrow> PlayerInfo \<Rightarrow> 'w Session \<Rightarrow> 'w Session" where
  "admit cfg conn online info s =
     (if 3 \<le> same_ip_count s (ci_Ip conn)
      then writeErrLog (ci_Ip conn) ''session'' ''too many connections'' s
      else
        (let i = scan_id (ids s) (maxID cfg) 1
         in if i = 0
            then writeErrLog (ci_Ip conn) ''session'' ''room is full'' s
            else writeLog (ci_Ip conn) ''session'' ''connect'' 200
                   (register (nextRef s) (new_client cfg conn online info i) s)))"

definition connect :: "'w Config \<Rightarrow> ConnInfo \<Rightarrow> PlayerInfo \<Rightarrow> 'w Session \<Rightarrow> 'w Session" where
  "connect cfg conn info s =
     (if pi_shadowBanned info
      then admit cfg conn False info
             (writeErrLog (ci_Ip conn) ''session''
                ''player is shadowbanned, setting connection to offline'' s)
      else if pi_banned info
      then writeErrLog (ci_Ip conn) ''session'' ''player is banned, aborting connection'' s
      else admit cfg conn (ci_Online conn) info s)"

text \<open>\<open>deleteClient\<close>; closing a closed channel panics.\<close>

definition deleteClient :: "'w Config \<Rightarrow> cref \<Rightarrow> 'w Session \<Rightarrow> fault + 'w Session" where
  "deleteClient cfg client s =
     (let c = heap s client
      in case close_chan (c_send c) of
           Inl f \<Rightarrow> Inl f
         | Inr ch \<Rightarrow>
             Inr (s\<lparr>world := updatePlayerGameData cfg c (world s),
                    ids := (ids s)(c_id c := False),
                    clients := removeAll client (clients s),
                    sessionClients := (sessionClients s)(c_uuid c := None),
                    heap := (heap s)(client := c\<lparr>c_send := ch\<rparr>)\<rparr>))"

text \<open>The case \<open>client := <-s.unregister\<close> of \<open>run\<close>.\<close>

definition unregister :: "'w Config \<Rightarrow> cref \<Rightarrow> 'w Session \<Rightarrow> fault + 'w Session" where
  "unregister cfg client s =
     (if client \<in> set (clients s)
      then (case deleteClient cfg client s of
              Inl f \<Rightarrow> Inl f
            | Inr s' \<Rightarrow> Inr (writeLog (c_ip (heap s' client)) ''session'' ''disconnect'' 200 s'))
      else Inr (writeErrLog (c_ip (heap s client)) ''session''
                  ''attempted to unregister nil client'' s))"

text \<open>
  \<open>broadcast\<close>. Go leaves the order of a \<open>range\<close> over a map open, so the order is an
  argument: a list of the registered references. The loop deletes only the entry it is
  at, which a \<open>range\<close> allows.
\<close>

fun broadcast :: "'w Config \<Rightarrow> string \<Rightarrow> cref list \<Rightarrow> 'w Session \<Rightarrow> fault + 'w Session" where
  "broadcast cfg data [] s = Inr s"
| "broadcast cfg data (client # rest) s =
     (case try_send data (c_send (heap s client)) of
        SendPanics \<Rightarrow> Inl SendOnClosedChannel
      | Sent ch \<Rightarrow>
          broadcast cfg data rest
            (s\<lparr>heap := (heap s)(client := (heap s client)\<lparr>c_send := ch\<rparr>)\<rparr>)
      | WouldBlock \<Rightarrow>
          (case deleteClient cfg client s of
             Inl f \<Rightarrow> Inl f
           | Inr s' \<Rightarrow> broadcast cfg data rest s'))"

text \<open>
  \<open>newSessionWs\<close>: empty maps. No client object exists yet; an address that has not been
  allocated reads as the zero value of the struct.
\<close>

definition zero_client :: SessionClient where
  "zero_client =
     \<lparr>c_send = make_chan 0, c_ip = [], c_id = 0, c_online = False, c_account = False,
      c_name = [], c_uuid = [], c_rank = 0, c_badge = [], c_spriteName = [],
      c_spriteIndex = 0, c_systemName = []\<rparr>"

definition newSessionWs :: "'w \<Rightarrow> 'w Session" where
  "newSessionWs w =
     \<lparr>heap = (\<lambda>_. zero_client), nextRef = 0, clients = [], ids = (\<lambda>_. False),
      sessionClients = Map.empty, logs = [], world = w\<rparr>"

section \<open>The second registry: server/session.go\<close>

text \<open>
  Package \<open>server\<close> keeps the registry in a \<open>sync.Map\<close> from the uuid to the client,
  modelled by the list of its entries, one per key, and numbers the clients with the
  counter \<open>session.lastId\<close>. Of its \<open>SessionClient\<close> the model keeps the fields
  \<open>joinSessionWs\<close> sets, but for the transport handle and the channels.
\<close>

record ServerClient =
  sv_ip :: string
  sv_uuid :: uuid
  sv_name :: string
  sv_rank :: int
  sv_badge :: string
  sv_muted :: bool
  sv_account :: bool
  sv_id :: int
  sv_spriteName :: string
  sv_spriteIndex :: int
  sv_systemName :: string

record 'w Server =
  registry :: "(uuid \<times> ServerClient) list"
  lastId :: int
  server_logs :: "LogLine list"
  server_world :: 'w

text \<open>\<open>clients.Load\<close> and \<open>clients.Store\<close>.\<close>

definition Load :: "'w Server \<Rightarrow> uuid \<Rightarrow> ServerClient option" where
  "Load sv u = map_of (registry sv) u"

definition Store :: "uuid \<Rightarrow> ServerClient \<Rightarrow> 'w Server \<Rightarrow> 'w Server" where
  "Store u c sv = sv\<lparr>registry := filter (\<lambda>e. fst e \<noteq> u) (registry sv) @ [(u, c)]\<rparr>"

text \<open>
  What \<open>joinSessionWs\<close> calls and the sources do not hold: the two identity lookups
  (\<open>getOrCreatePlayerData\<close> may insert a player row), \<open>getPlayerGameData\<close> and the
  method \<open>disconnect\<close> of a client.
\<close>

record 'w ServerEnv =
  getPlayerDataFromToken :: "string \<Rightarrow> 'w \<Rightarrow> uuid \<times> string \<times> int \<times> string \<times> bool \<times> bool"
  getOrCreatePlayerData :: "string \<Rightarrow> 'w \<Rightarrow> (uuid \<times> bool \<times> bool) \<times> 'w"
  getPlayerGameData :: "uuid \<Rightarrow> 'w \<Rightarrow> string \<times> int \<times> string"
  disconnect :: "ServerClient \<Rightarrow> 'w Server \<Rightarrow> 'w Server"

text \<open>
  The identity \<open>joinSessionWs\<close> resolves: the client as far as it is filled in, the
  ban flag and the store after the lookups.
\<close>

definition resolve ::
  "'w ServerEnv \<Rightarrow> string \<Rightarrow> string \<Rightarrow> 'w \<Rightarrow> ServerClient \<times> bool \<times> 'w" where
  "resolve env ip token w =
     (let c0 = \<lparr>sv_ip = ip, sv_uuid = [], sv_name = [], sv_rank = 0, sv_badge = [],
                sv_muted = False, sv_account = False, sv_id = 0, sv_spriteName = [],
                sv_spriteIndex = 0, sv_systemName = []\<rparr>;
          (c1, banned1) =
            (if token \<noteq> []
             then (case getPlayerDataFromToken env token w of
                     (u, n, r, b, bn, m) \<Rightarrow>
                       (c0\<lparr>sv_uuid := u, sv_name := n, sv_rank := r, sv_badge := b,
                           sv_muted := m\<rparr>, bn))
             else (c0, False))
      in if sv_uuid c1 \<noteq> [] then (c1\<lparr>sv_account := True\<rparr>, banned1, w)
         else (case getOrCreatePlayerData env ip w of
                 ((u, bn, m), w') \<Rightarrow> (c1\<lparr>sv_uuid := u, sv_muted := m\<rparr>, bn, w')))"

definition server_same_ip :: "'w Server \<Rightarrow> string \<Rightarrow> nat" where
  "server_same_ip sv ip = length (filter (\<lambda>e. sv_ip (snd e) = ip) (registry sv))"

definition server_errlog :: "string \<Rightarrow> string \<Rightarrow> string \<Rightarrow> 'w Server \<Rightarrow> 'w Server" where
  "server_errlog who loc payload sv =
     sv\<lparr>server_logs := server_logs sv @ [ErrLog who loc payload]\<rparr>"

text \<open>
  \<open>joinSessionWs\<close>: \<open>evict_prior\<close> is the \<open>Load\<close> of the uuid with the
  \<open>disconnect\<close> of the client found, \<open>enter\<close> the part after it.
\<close>

definition enter :: "'w ServerEnv \<Rightarrow> string \<Rightarrow> ServerClient \<Rightarrow> 'w Server \<Rightarrow> 'w Server" where
  "enter env ip c sv =
     (if 3 < server_same_ip sv ip
      then server_errlog (sv_uuid c) ''sess'' ''too many connections from ip'' sv
      else
        (let c1 = (if sv_badge c = [] then c\<lparr>sv_badge := ''null''\<rparr> else c);
             c2 = c1\<lparr>sv_id := lastId sv\<rparr>;
             sv1 = sv\<lparr>lastId := lastId sv + 1\<rparr>;
             c3 = (case getPlayerGameData env (sv_uuid c2) (server_world sv1) of
                     (sn, si, sy) \<Rightarrow>
                       c2\<lparr>sv_spriteName := sn, sv_spriteIndex := si, sv_systemName := sy\<rparr>);
             sv2 = Store (sv_uuid c3) c3 sv1
         in sv2\<lparr>server_logs := server_logs sv2 @ [Log (sv_uuid c3) ''sess'' ''connect'' 200]\<rparr>))"

definition evict_prior :: "'w ServerEnv \<Rightarrow> ServerClient \<Rightarrow> 'w Server \<Rightarrow> 'w Server" where
  "evict_prior env c sv =
     (case Load sv (sv_uuid c) of Some old \<Rightarrow> disconnect env old sv | None \<Rightarrow> sv)"

definition joinSessionWs :: "'w ServerEnv \<Rightarrow> string \<Rightarrow> string \<Rightarrow> 'w Server \<Rightarrow> 'w Server" where
  "joinSessionWs env ip token sv =
     (case resolve env ip token (server_world sv) of
        (c, banned, w) \<Rightarrow>
          (let sv0 = sv\<lparr>server_world := w\<rparr>
           in if banned then server_errlog (sv_uuid c) ''sess'' ''player is banned'' sv0
              else enter env ip c (evict_prior env c sv0)))"

text \<open>The package-level \<open>session = &Session{}\<close> and the empty \<open>clients\<close>.\<close>

definition server_init :: "'w \<Rightarrow> 'w Server" where
  "server_init w = \<lparr>registry = [], lastId = 0, server_logs = [], server_world = w\<rparr>"

section \<open>The protocol dispatcher: processMsgs and processMsg of session.go\<close>

text \<open>
  \<open>utf8.Valid\<close>. \<open>rune_size\<close> is the length of the well-formed UTF-8 sequence a byte
  string starts with, 0 when it starts with none: one byte below \<open>0x80\<close>, or a lead byte
  \<open>C2..DF\<close>, \<open>E0..EF\<close>, \<open>F0..F4\<close> with one, two or three continuation bytes,
  the first of them in the narrower range that excludes overlong forms, surrogates and
  values above \<open>10FFFF\<close>.
\<close>

definition byte :: "char \<Rightarrow> nat" where
  "byte c = of_char c"

definition cont :: "char \<Rightarrow> bool" where
  "cont c = (128 \<le> byte c \<and> byte c \<le> 191)"

definition second_ok :: "char \<Rightarrow> char \<Rightarrow> bool" where
  "second_ok b0 b1 =
     ((if byte b0 = 224 then 160 else if byte b0 = 240 then 144 else 128) \<le> byte b1 \<and>
      byte b1 \<le> (if byte b0 = 237 then 159 else if byte b0 = 244 then 143 else 191))"

fun rune_size :: "string \<Rightarrow> nat" where
  "rune_size [] = 0"
| "rune_size (b0 # bs) =
     (if byte b0 < 128 then 1
      else if 194 \<le> byte b0 \<and> byte b0 \<le> 223
      then (case bs of b1 # _ \<Rightarrow> if cont b1 then 2 else 0 | _ \<Rightarrow> 0)
      else if 224 \<le> byte b0 \<and> byte b0 \<le> 239
      then (case bs of
              b1 # b2 # _ \<Rightarrow> if second_ok b0 b1 \<and> cont b2 then 3 else 0
            | _ \<Rightarrow> 0)
      else if 240 \<le> byte b0 \<and> byte b0 \<le> 244
      then (case bs of
              b1 # b2 # b3 # _ \<Rightarrow> if second_ok b0 b1 \<and> cont b2 \<and> cont b3 then 4 else 0
            | _ \<Rightarrow> 0)
      else 0)"

function utf8_Valid :: "string \<Rightarrow> bool" where
  "utf8_Valid s =
     (if s = [] then True
      else if rune_size s = 0 then False
      else utf8_Valid (drop (rune_size s) s))"
  by pat_completeness auto
termination
  by (relation "measure length") auto

declare utf8_Valid.simps [simp del]

text \<open>
  \<open>strings.Split\<close>. With a separator it cuts at each occurrence, found left to right
  and not overlapping, and always returns at least one piece; with the empty separator
  it cuts after each UTF-8 sequence (a byte that starts none is a piece of its own) and
  returns no piece for the empty string.
\<close>

fun is_prefix :: "string \<Rightarrow> string \<Rightarrow> bool" where
  "is_prefix [] s = True"
| "is_prefix (a # as) [] = False"
| "is_prefix (a # as) (b # bs) = (a = b \<and> is_prefix as bs)"

function split_at :: "string \<Rightarrow> string \<Rightarrow> string \<Rightarrow> string list" where
  "split_at sep cur s =
     (if s = [] then [cur]
      else if sep \<noteq> [] \<and> is_prefix sep s then cur # split_at sep [] (drop (length sep) s)
      else split_at sep (cur @ [hd s]) (tl s))"
  by pat_completeness auto
termination
  by (relation "measure (\<lambda>(sep, cur, s). length s)") auto

declare split_at.simps [simp del]

function explode :: "string \<Rightarrow> string list" where
  "explode s =
     (if s = [] then []
      else take (max 1 (rune_size s)) s # explode (drop (max 1 (rune_size s)) s))"
  by pat_completeness auto
termination
  by (relation "measure length") auto

declare explode.simps [simp del]

definition strings_Split :: "string \<Rightarrow> string \<Rightarrow> string list" where
  "strings_Split s sep = (if sep = [] then explode s else split_at sep [] s)"

text \<open>
  The handlers \<open>handleI\<close> ... \<open>handleEl\<close> are not part of the sources. Each is a
  function of the fields, the sender and the state that returns the Go \<open>error\<close>
  (\<open>None\<close> is \<open>nil\<close>, otherwise the message) and the state it leaves.
\<close>

type_synonym 'w handler = "string list \<Rightarrow> cref \<Rightarrow> 'w Session \<Rightarrow> string option \<times> 'w Session"

record 'w Handlers =
  handleI :: "'w handler"
  handleName :: "'w handler"
  handlePloc :: "'w handler"
  handleGSay :: "'w handler"
  handlePSay :: "'w handler"
  handlePt :: "'w handler"
  handleEp :: "'w handler"
  handleEl :: "'w handler"

text \<open>The end of \<open>processMsg\<close>: an error is returned, a success is logged.\<close>

definition conclude ::
  "string \<Rightarrow> cref \<Rightarrow> string option \<times> 'w Session \<Rightarrow> fault + (string option \<times> 'w Session)" where
  "conclude msgStr sender r =
     (case fst r of
        Some e \<Rightarrow> Inr (Some e, snd r)
      | None \<Rightarrow> Inr (None, writeLog (c_ip (heap (snd r) sender)) ''session'' msgStr 200 (snd r)))"

text \<open>
  The \<open>pt\<close> case: when the handler fails, \<open>pt\<close>, \<open>delim\<close>, \<open>null\<close> is sent to the
  sender with a plain send.
\<close>

definition pt_case ::
  "'w Config \<Rightarrow> string \<Rightarrow> cref \<Rightarrow> string option \<times> 'w Session
     \<Rightarrow> fault + (string option \<times> 'w Session)" where
  "pt_case cfg msgStr sender r =
     (case fst r of
        None \<Rightarrow> conclude msgStr sender r
      | Some e \<Rightarrow>
          (let s1 = snd r
           in case send_blocking (''pt'' @ delim cfg @ ''null'') (c_send (heap s1 sender)) of
                Inl f \<Rightarrow> Inl f
              | Inr ch \<Rightarrow>
                  conclude msgStr sender
                    (Some e, s1\<lparr>heap := (heap s1)(sender := (heap s1 sender)\<lparr>c_send := ch\<rparr>)\<rparr>)))"

definition processMsg ::
  "'w Config \<Rightarrow> 'w Handlers \<Rightarrow> string \<Rightarrow> cref \<Rightarrow> 'w Session
     \<Rightarrow> fault + (string option \<times> 'w Session)" where
  "processMsg cfg H msgStr sender s =
     (let msgFields = strings_Split msgStr (delim cfg)
      in case msgFields of
           [] \<Rightarrow> Inr (Some msgStr, s)
         | cmd # _ \<Rightarrow>
             if cmd = ''i'' then conclude msgStr sender (handleI H msgFields sender s)
             else if cmd = ''name'' then conclude msgStr sender (handleName H msgFields sender s)
             else if cmd = ''ploc'' then conclude msgStr sender (handlePloc H msgFields sender s)
             else if cmd = ''gsay'' then conclude msgStr sender (handleGSay H msgFields sender s)
             else if cmd = ''psay'' then conclude msgStr sender (handlePSay H msgFields sender s)
             else if cmd = ''pt'' then pt_case cfg msgStr sender (handlePt H msgFields sender s)
             else if cmd = ''ep'' then conclude msgStr sender (handleEp H msgFields sender s)
             else if cmd = ''el'' then conclude msgStr sender (handleEl H msgFields sender s)
             else Inr (Some msgStr, s))"

text \<open>The loop of \<open>processMsgs\<close> over the sub-messages.\<close>

fun processAll ::
  "'w Config \<Rightarrow> 'w Handlers \<Rightarrow> string list \<Rightarrow> cref \<Rightarrow> 'w Session
     \<Rightarrow> fault + (string list \<times> 'w Session)" where
  "processAll cfg H [] sender s = Inr ([], s)"
| "processAll cfg H (m # ms) sender s =
     (case processMsg cfg H m sender s of
        Inl f \<Rightarrow> Inl f
      | Inr (err, s1) \<Rightarrow>
          (case processAll cfg H ms sender s1 of
             Inl f \<Rightarrow> Inl f
           | Inr (errs, s2) \<Rightarrow> Inr ((case err of None \<Rightarrow> [] | Some e \<Rightarrow> [e]) @ errs, s2)))"

record SessionMessage =
  msg_data :: string
  msg_sender :: cref

definition processMsgs ::
  "'w Config \<Rightarrow> 'w Handlers \<Rightarrow> SessionMessage \<Rightarrow> 'w Session
     \<Rightarrow> fault + (string list \<times> 'w Session)" where
  "processMsgs cfg H msg s =
     (if 4096 < length (msg_data msg) then Inr ([''bad request size''], s)
      else if \<exists>v \<in> set (msg_data msg). byte v < 32 then Inr ([''bad byte sequence''], s)
      else if \<not> utf8_Valid (msg_data msg) then Inr ([''invalid UTF-8''], s)
      else processAll cfg H (strings_Split (msg_data msg) (mdelim cfg)) (msg_sender msg) s)"

text \<open>
  The case \<open>message := <-s.processMsgCh\<close> of \<open>run\<close>: every error is written to the
  error log under the sender's address.
\<close>

definition process_message ::
  "'w Config \<Rightarrow> 'w Handlers \<Rightarrow> SessionMessage \<Rightarrow> 'w Session \<Rightarrow> fault + 'w Session" where
  "process_message cfg H msg s =
     (case processMsgs cfg H msg s of
        Inl f \<Rightarrow> Inl f
      | Inr (errs, s1) \<Rightarrow>
          Inr (foldl (\<lambda>st e. writeErrLog (c_ip (heap st (msg_sender msg))) ''session'' e st)
                 s1 errs))"

section \<open>Party coordination: what the properties are stated with\<close>

text \<open>
  The membership rows a party keeps when a player's rows are cleared; the rank a row joins
  from \<open>players\<close>; \<open>outranks\<close>: higher rank first, the earlier membership row among
  equal ranks; \<open>preferred_owner\<close>: the member the next owner must be, an online member
  that outranks every online member when one is online, a member that outranks every
  member otherwise.
\<close>

definition remainingMembers :: "Database \<Rightarrow> int \<Rightarrow> uuid \<Rightarrow> PartyMemberRow list" where
  "remainingMembers db pid u =
     filter (\<lambda>m. pm_partyId m = pid) (partyMembers (clearPlayerParty u db))"

definition rank_of :: "Database \<Rightarrow> PartyMemberRow \<Rightarrow> int" where
  "rank_of db m = the (players db (pm_uuid m))"

definition outranks :: "Database \<Rightarrow> PartyMemberRow \<Rightarrow> PartyMemberRow \<Rightarrow> bool" where
  "outranks db r m = (rank_of db m < rank_of db r \<or> (rank_of db m = rank_of db r \<and> pm_id r \<le> pm_id m))"

definition preferred_owner ::
  "(uuid \<Rightarrow> bool) \<Rightarrow> Database \<Rightarrow> PartyMemberRow list \<Rightarrow> PartyMemberRow \<Rightarrow> bool" where
  "preferred_owner online db ms r =
     (r \<in> set ms \<and>
      (if \<exists>m \<in> set ms. online (pm_uuid m)
       then online (pm_uuid r) \<and> (\<forall>m \<in> set ms. online (pm_uuid m) \<longrightarrow> outranks db r m)
       else \<forall>m \<in> set ms. outranks db r m))"

text \<open>
  A store with one private party (password \<open>xyz\<close>), owned by \<open>A\<close>, with the members
  \<open>A\<close>, \<open>B\<close> and \<open>C\<close> in join order; \<open>C\<close> is a moderator.
\<close>

definition db_three :: Database where
  "db_three = \<lparr>gameName = ''2kki'',
     parties = [\<lparr>p_id = 1, p_game = ''2kki'', p_owner = Some ''A'', p_public = False,
                 p_pass = ''xyz''\<rparr>],
     partyMembers = [\<lparr>pm_id = 1, pm_partyId = 1, pm_uuid = ''A''\<rparr>,
                     \<lparr>pm_id = 2, pm_partyId = 1, pm_uuid = ''B''\<rparr>,
                     \<lparr>pm_id = 3, pm_partyId = 1, pm_uuid = ''C''\<rparr>],
     players = [''A'' \<mapsto> 0, ''B'' \<mapsto> 0, ''C'' \<mapsto> 1],
     nextPmId = 4\<rparr>"

text \<open>
  Requests of a player who is not banned; the responses of a join that passed the
  password gate.
\<close>

definition request :: "uuid \<Rightarrow> int \<Rightarrow> (string \<times> string list) list \<Rightarrow> PartyRequest" where
  "request u r q = \<lparr>rq_uuid = u, rq_rank = r, rq_banned = False, rq_query = map_of q\<rparr>"

definition unauthorized :: writer where
  "unauthorized = (Some 401, ''401 - Unauthorized'')"

definition join_proceeds :: "PartyRequest \<Rightarrow> int \<Rightarrow> Database \<Rightarrow> writer \<times> Database" where
  "join_proceeds rq pid db =
     (if 0 < readPlayerPartyId db (rq_uuid rq)
      then ((Some 400, ''player already in a party''), db)
      else ((Some 200, ''ok''), createPlayerParty pid (rq_uuid rq) db))"

definition rq_mod_join :: PartyRequest where
  "rq_mod_join = request ''D'' 1 [(''command'', [''join'']), (''partyId'', [''1''])]"

definition rq_mod_wrong :: PartyRequest where
  "rq_mod_wrong = request ''D'' 1
     [(''command'', [''join'']), (''partyId'', [''1'']), (''pass'', [''wrong''])]"

definition rq_guest_wrong :: PartyRequest where
  "rq_guest_wrong = request ''D'' 0
     [(''command'', [''join'']), (''partyId'', [''1'']), (''pass'', [''wrong''])]"

definition rq_guest_right :: PartyRequest where
  "rq_guest_right = request ''D'' 0
     [(''command'', [''join'']), (''partyId'', [''1'']), (''pass'', [''xyz''])]"

definition rq_self_kick :: PartyRequest where
  "rq_self_kick = request ''A'' 0 [(''command'', [''kick'']), (''player'', [''A''])]"

section \<open>The registry: what the properties are stated with\<close>

text \<open>
  \<open>id_in_use\<close>: a registered client holds the id. \<open>registry_ok\<close>: the keys of
  \<open>s.clients\<close> are allocated references, listed once each; the channel of a registered
  client is open; \<open>s.id\<close> marks exactly the ids registered clients hold; no two
  registered clients hold the same id.
\<close>

definition id_in_use :: "'w Session \<Rightarrow> int \<Rightarrow> bool" where
  "id_in_use s i = (\<exists>c \<in> set (clients s). c_id (heap s c) = i)"

definition registry_ok :: "'w Session \<Rightarrow> bool" where
  "registry_ok s =
     (distinct (clients s) \<and>
      (\<forall>c \<in> set (clients s). c < nextRef s \<and> \<not> closed (c_send (heap s c))) \<and>
      (\<forall>i. ids s i = id_in_use s i) \<and>
      inj_on (\<lambda>c. c_id (heap s c)) (set (clients s)))"

definition has_room :: "'w Session \<Rightarrow> cref \<Rightarrow> bool" where
  "has_room s c = (length (buf (c_send (heap s c))) < capacity (c_send (heap s c)))"

text \<open>
  The states \<open>run\<close> and \<open>broadcast\<close> reach from \<open>newSessionWs\<close>; a broadcast visits
  the registered clients in some order, each once.
\<close>

inductive reachable :: "'w Config \<Rightarrow> 'w Session \<Rightarrow> bool" for cfg :: "'w Config" where
  reach_new: "reachable cfg (newSessionWs w)"
| reach_connect: "reachable cfg s \<Longrightarrow> reachable cfg (connect cfg conn info s)"
| reach_unregister: "reachable cfg s \<Longrightarrow> unregister cfg c s = Inr s' \<Longrightarrow> reachable cfg s'"
| reach_broadcast:
    "reachable cfg s \<Longrightarrow> distinct order \<Longrightarrow> set order = set (clients s) \<Longrightarrow>
     broadcast cfg data order s = Inr s' \<Longrightarrow> reachable cfg s'"

text \<open>A configuration and guests for the examples: three ids, one-character separators.\<close>

definition cfg3 :: "unit Config" where
  "cfg3 = \<lparr>maxID = 3, delim = ''|'', mdelim = ''~'',
           btoa = (\<lambda>b. if b then ''1'' else ''0''),
           updatePlayerGameData = (\<lambda>_ w. w)\<rparr>"

definition guest_conn :: "string \<Rightarrow> ConnInfo" where
  "guest_conn ip = \<lparr>ci_Ip = ip, ci_Token = [], ci_Online = True\<rparr>"

definition guest_info :: "uuid \<Rightarrow> PlayerInfo" where
  "guest_info u =
     \<lparr>pi_uuid = u, pi_name = [], pi_rank = 0, pi_badge = [], pi_shadowBanned = False,
      pi_banned = False, pi_account = False, pi_systemName = [], pi_spriteName = [],
      pi_spriteIndex = 0\<rparr>"

definition guest_connect :: "string \<Rightarrow> uuid \<Rightarrow> unit Session \<Rightarrow> unit Session" where
  "guest_connect ip u s = connect cfg3 (guest_conn ip) (guest_info u) s"

text \<open>
  What a broadcast does to one client object: the payload is appended to the buffer of its
  channel, or the channel is closed.
\<close>

definition delivered :: "string \<Rightarrow> SessionClient \<Rightarrow> SessionClient" where
  "delivered data c = c\<lparr>c_send := (c_send c)\<lparr>buf := buf (c_send c) @ [data]\<rparr>\<rparr>"

definition evicted :: "SessionClient \<Rightarrow> SessionClient" where
  "evicted c = c\<lparr>c_send := (c_send c)\<lparr>closed := True\<rparr>\<rparr>"

text \<open>
  \<open>broadcast_post\<close> relates the state before a broadcast over \<open>order\<close> to the state
  after it: the clients of \<open>order\<close> whose buffer was full are no longer registered,
  their ids and their entries in \<open>sessionClients\<close> are gone and their channels are
  closed; every other client of \<open>order\<close> has the payload at the end of its buffer.
\<close>

definition broadcast_post ::
  "string \<Rightarrow> cref list \<Rightarrow> 'w Session \<Rightarrow> 'w Session \<Rightarrow> bool" where
  "broadcast_post data order s s' =
     (clients s' = filter (\<lambda>c. c \<notin> set order \<or> has_room s c) (clients s) \<and>
      (\<forall>c. heap s' c =
         (if c \<in> set order
          then (if has_room s c then delivered data (heap s c) else evicted (heap s c))
          else heap s c)) \<and>
      (\<forall>i. ids s' i =
         (ids s i \<and> \<not> (\<exists>c \<in> set order. \<not> has_room s c \<and> c_id (heap s c) = i))) \<and>
      (\<forall>u. sessionClients s' u =
         (if \<exists>c \<in> set order. \<not> has_room s c \<and> c_uuid (heap s c) = u then None
          else sessionClients s u)))"

text \<open>
  Two registered clients; the buffer of the first holds 256 messages, its capacity.
\<close>

definition two_clients :: "unit Session" where
  "two_clients =
     \<lparr>heap = (\<lambda>r. if r = 0
                   then (new_client cfg3 (guest_conn ''ip1'') True (guest_info ''u1'') 1)
                          \<lparr>c_send := \<lparr>buf = replicate 256 ''m'', closed = False, capacity = 256\<rparr>\<rparr>
                   else new_client cfg3 (guest_conn ''ip2'') True (guest_info ''u2'') 2),
      nextRef = 2, clients = [0, 1], ids = (\<lambda>i. i = 1 \<or> i = 2),
      sessionClients = [''u1'' \<mapsto> 0, ''u2'' \<mapsto> 1], logs = [], world = ()\<rparr>"

text \<open>
  \<open>unchanged_registry\<close>: no client was installed or removed. \<open>not_aborted\<close>: the
  ban checks of \<open>run\<close> let the connection through (a shadow-banned player is let
  through, offline). \<open>before_admit\<close>: the state after those checks, which differs by a
  log line at most.
\<close>

definition unchanged_registry :: "'w Session \<Rightarrow> 'w Session \<Rightarrow> bool" where
  "unchanged_registry s s' =
     (clients s' = clients s \<and> heap s' = heap s \<and> ids s' = ids s \<and>
      sessionClients s' = sessionClients s \<and> nextRef s' = nextRef s)"

definition not_aborted :: "PlayerInfo \<Rightarrow> bool" where
  "not_aborted info = (pi_shadowBanned info \<or> \<not> pi_banned info)"

definition before_admit :: "ConnInfo \<Rightarrow> PlayerInfo \<Rightarrow> 'w Session \<Rightarrow> 'w Session" where
  "before_admit conn info s =
     (if pi_shadowBanned info
      then writeErrLog (ci_Ip conn) ''session''
             ''player is shadowbanned, setting connection to offline'' s
      else s)"

text \<open>The same guest connects twice from one address.\<close>

definition twice :: "unit Session" where
  "twice = guest_connect ''ip1'' ''u1'' (guest_connect ''ip1'' ''u1'' (newSessionWs ()))"

section \<open>The second registry: what the properties are stated with\<close>

text \<open>
  \<open>server_ids_ok\<close>: the registered clients hold different ids, all below the counter.
\<close>

definition server_ids_ok :: "'w Server \<Rightarrow> bool" where
  "server_ids_ok sv =
     (distinct (map (\<lambda>e. sv_id (snd e)) (registry sv)) \<and>
      (\<forall>e \<in> set (registry sv). sv_id (snd e) < lastId sv))"

text \<open>
  An environment for the examples: every token names an account of its own, a guest is
  named after the address, and \<open>disconnect\<close> removes the client from the registry.
\<close>

definition env0 :: "unit ServerEnv" where
  "env0 =
     \<lparr>getPlayerDataFromToken = (\<lambda>t w. (''acct-'' @ t, t, 0, [], False, False)),
      getOrCreatePlayerData = (\<lambda>ip w. ((''guest-'' @ ip, False, False), w)),
      getPlayerGameData = (\<lambda>u w. ([], 0, [])),
      disconnect = (\<lambda>c sv. sv\<lparr>registry := filter (\<lambda>e. fst e \<noteq> sv_uuid c) (registry sv)\<rparr>)\<rparr>"

definition four_joined :: "unit Server" where
  "four_joined =
     joinSessionWs env0 ''ip1'' ''t4'' (joinSessionWs env0 ''ip1'' ''t3''
       (joinSessionWs env0 ''ip1'' ''t2'' (joinSessionWs env0 ''ip1'' ''t1'' (server_init ()))))"

text \<open>The client \<open>joinSessionWs\<close> stores for a resolved client \<open>c\<close>.\<close>

definition entered :: "'w ServerEnv \<Rightarrow> ServerClient \<Rightarrow> 'w Server \<Rightarrow> ServerClient" where
  "entered env c sv =
     (case getPlayerGameData env (sv_uuid c) (server_world sv) of
        (sn, si, sy) \<Rightarrow>
          c\<lparr>sv_badge := (if sv_badge c = [] then ''null'' else sv_badge c),
            sv_id := lastId sv, sv_spriteName := sn, sv_spriteIndex := si,
            sv_systemName := sy\<rparr>)"

text \<open>Three guests of one address in the actor; three accounts of one address here.\<close>

definition three_guests :: "unit Session" where
  "three_guests =
     guest_connect ''ip1'' ''u3'' (guest_connect ''ip1'' ''u2''
       (guest_connect ''ip1'' ''u1'' (newSessionWs ())))"

definition three_joined :: "unit Server" where
  "three_joined =
     joinSessionWs env0 ''ip1'' ''t3'' (joinSessionWs env0 ''ip1'' ''t2''
       (joinSessionWs env0 ''ip1'' ''t1'' (server_init ())))"

section \<open>The dispatcher: what the properties are stated with\<close>

text \<open>
  Handlers for the examples: \<open>name\<close> stores its one argument as the sender's name,
  \<open>pt\<close> always fails, the others do nothing.
\<close>

definition quiet :: "unit Handlers" where
  "quiet =
     \<lparr>handleI = (\<lambda>f c s. (None, s)),
      handleName =
        (\<lambda>f c s. case f of
                    [_, n] \<Rightarrow> (None, s\<lparr>heap := (heap s)(c := (heap s c)\<lparr>c_name := n\<rparr>)\<rparr>)
                  | _ \<Rightarrow> (Some ''segment count mismatch'', s)),
      handlePloc = (\<lambda>f c s. (None, s)),
      handleGSay = (\<lambda>f c s. (None, s)),
      handlePSay = (\<lambda>f c s. (None, s)),
      handlePt = (\<lambda>f c s. (Some ''player not in a party'', s)),
      handleEp = (\<lambda>f c s. (None, s)),
      handleEl = (\<lambda>f c s. (None, s))\<rparr>"


definition frame :: "string \<Rightarrow> cref \<Rightarrow> SessionMessage" where
  "frame d c = \<lparr>msg_data = d, msg_sender = c\<rparr>"

text \<open>
  The error a frame is rejected with, by the three checks in the order of
  \<open>processMsgs\<close>; \<open>None\<close> for a frame that passes them.
\<close>

definition frame_error :: "string \<Rightarrow> string option" where
  "frame_error d =
     (if 4096 < length d then Some ''bad request size''
      else if \<exists>v \<in> set d. byte v < 32 then Some ''bad byte sequence''
      else if \<not> utf8_Valid d then Some ''invalid UTF-8''
      else None)"

text \<open>A frame of 4097 line feeds: too long, and all control bytes.\<close>

definition long_frame :: string where
  "long_frame = replicate 4097 (CHR 0x0A)"


section \<open>Party coordination: leaving\<close>

lemma find_map_comp: "find P (map f xs) = map_option f (find (P \<circ> f) xs)"
  by (induction xs) auto

lemma find_sorted_least:
  "sorted (map k xs) \<Longrightarrow> find P xs = Some x \<Longrightarrow>
     x \<in> set xs \<and> P x \<and> (\<forall>y \<in> set xs. P y \<longrightarrow> k x \<le> k y)"
  by (induction xs) (auto split: if_splits)

lemma sorted_head_least: "sorted (map k (x # xs)) \<Longrightarrow> y \<in> set (x # xs) \<Longrightarrow> k x \<le> k y"
  by auto

lemma member_key_le: "member_key db r \<le> member_key db m \<longleftrightarrow> outranks db r m"
  by (auto simp: member_key_def outranks_def rank_of_def)

lemma find_owner_update:
  "find (\<lambda>p. p_id p = q) (map (\<lambda>p. if p_id p = pid then p\<lparr>p_owner := v\<rparr> else p) ps) =
     (case find (\<lambda>p. p_id p = q) ps of None \<Rightarrow> None
      | Some p \<Rightarrow> Some (if q = pid then p\<lparr>p_owner := v\<rparr> else p))"
  by (induction ps) auto

lemma find_party_setPartyOwner:
  "find_party (setPartyOwner pid v db) q =
     (case find_party db q of None \<Rightarrow> None
      | Some p \<Rightarrow> Some (if q = pid then p\<lparr>p_owner := v\<rparr> else p))"
  by (simp add: find_party_def setPartyOwner_def find_owner_update)

lemma readPartyOwnerUuid_setPartyOwner:
  "find_party db pid \<noteq> None \<Longrightarrow>
     readPartyOwnerUuid (setPartyOwner pid (Some v) db) pid = Inr v"
  by (auto simp: readPartyOwnerUuid_def find_party_setPartyOwner split: option.splits)

lemma find_party_clearPlayerParty [simp]:
  "find_party (clearPlayerParty u db) q = find_party db q"
  by (simp add: find_party_def clearPlayerParty_def)

lemma find_party_deleted:
  "find_party (db\<lparr>parties := filter (\<lambda>p. p_id p \<noteq> pid) (parties db)\<rparr>) pid = None"
  by (simp add: find_party_def find_None_iff)

lemma set_orderedPartyMembers:
  "\<forall>m \<in> set (remainingMembers db pid u). players db (pm_uuid m) \<noteq> None \<Longrightarrow>
     set (orderedPartyMembers (clearPlayerParty u db) pid) = set (remainingMembers db pid u)"
  by (auto simp: orderedPartyMembers_def remainingMembers_def clearPlayerParty_def)

lemma sorted_orderedPartyMembers:
  "sorted (map (member_key db) (orderedPartyMembers db pid))"
  by (simp add: orderedPartyMembers_def)

lemma member_key_clear [simp]: "member_key (clearPlayerParty u db) = member_key db"
  by (simp add: member_key_def clearPlayerParty_def fun_eq_iff)

lemma assumeNextPartyOwner_preferred:
  assumes ne: "remainingMembers db pid u \<noteq> []"
    and wf: "\<forall>m \<in> set (remainingMembers db pid u). players db (pm_uuid m) \<noteq> None \<and> pm_uuid m \<noteq> []"
    and ex: "find_party db pid \<noteq> None"
  shows "\<exists>r. preferred_owner online db (remainingMembers db pid u) r \<and>
           readPartyOwnerUuid (assumeNextPartyOwner online pid (clearPlayerParty u db)) pid
             = Inr (pm_uuid r)"
proof -
  let ?db1 = "clearPlayerParty u db"
  let ?ms = "orderedPartyMembers ?db1 pid"
  let ?rem = "remainingMembers db pid u"
  have set_eq: "set ?ms = set ?rem"
    using wf by (intro set_orderedPartyMembers) blast
  have srt: "sorted (map (member_key db) ?ms)"
    using sorted_orderedPartyMembers [of ?db1 pid] by simp
  have ex1: "find_party ?db1 pid \<noteq> None" using ex by simp
  have nx: "find online (readPartyMemberUuids ?db1 pid)
              = map_option pm_uuid (find (online \<circ> pm_uuid) ?ms)"
    by (simp add: readPartyMemberUuids_def find_map_comp)
  show ?thesis
  proof (cases "find (online \<circ> pm_uuid) ?ms")
    case None
    then have no_on: "\<forall>m \<in> set ?rem. \<not> online (pm_uuid m)"
      using set_eq by (auto simp: find_None_iff)
    from ne set_eq obtain r rs where ms: "?ms = r # rs"
      by (cases ?ms) auto
    have least: "\<forall>m \<in> set ?rem. outranks db r m"
      using srt set_eq sorted_head_least [of "member_key db" r rs]
      by (simp add: ms member_key_le [symmetric])
    have pref: "preferred_owner online db ?rem r"
      using no_on least set_eq ms by (auto simp: preferred_owner_def)
    have a: "nextOnlinePlayerUuid online (readPartyMemberUuids ?db1 pid) = []"
      using nx None by (simp add: nextOnlinePlayerUuid_def)
    have b: "readPartyMemberUuids ?db1 pid = pm_uuid r # map pm_uuid rs"
      using ms by (simp add: readPartyMemberUuids_def)
    have "assumeNextPartyOwner online pid ?db1 = setPartyOwner pid (Some (pm_uuid r)) ?db1"
      using a b by (simp add: assumeNextPartyOwner_def Let_def)
    then show ?thesis
      using pref readPartyOwnerUuid_setPartyOwner [OF ex1] by auto
  next
    case (Some r)
    from find_sorted_least [OF srt Some]
    have r_in: "r \<in> set ?ms" and r_on: "online (pm_uuid r)"
      and r_least: "\<forall>y \<in> set ?ms. online (pm_uuid y) \<longrightarrow> member_key db r \<le> member_key db y"
      by auto
    have pref: "preferred_owner online db ?rem r"
      using r_in r_on r_least set_eq by (auto simp: preferred_owner_def member_key_le)
    have "pm_uuid r \<noteq> []" using wf r_in set_eq by auto
    moreover have "nextOnlinePlayerUuid online (readPartyMemberUuids ?db1 pid) = pm_uuid r"
      using nx Some by (simp add: nextOnlinePlayerUuid_def)
    ultimately
    have "assumeNextPartyOwner online pid ?db1 = setPartyOwner pid (Some (pm_uuid r)) ?db1"
      by (simp add: assumeNextPartyOwner_def Let_def)
    then show ?thesis
      using pref readPartyOwnerUuid_setPartyOwner [OF ex1] by auto
  qed
qed

lemma leave_not_emptied:
  "remainingMembers db pid u \<noteq> [] \<Longrightarrow>
     checkDeleteOrphanedParty pid (clearPlayerParty u db) = (False, clearPlayerParty u db)"
  by (simp add: checkDeleteOrphanedParty_def readPartyMemberCount_def remainingMembers_def)

lemma leave_emptied:
  "remainingMembers db pid u = [] \<Longrightarrow>
     checkDeleteOrphanedParty pid (clearPlayerParty u db)
       = (True, (clearPlayerParty u db)\<lparr>parties := filter (\<lambda>p. p_id p \<noteq> pid) (parties db)\<rparr>)"
  by (simp add: checkDeleteOrphanedParty_def readPartyMemberCount_def remainingMembers_def
      clearPlayerParty_def)

lemma partyMembers_assumeNextPartyOwner [simp]:
  "partyMembers (assumeNextPartyOwner online pid db) = partyMembers db"
  by (simp add: assumeNextPartyOwner_def setPartyOwner_def Let_def)

text \<open>
  Claim C4. A member leaves a party whose owner can be read. When no membership row of
  the party is left, the party row is deleted, every other party row is as before and no
  owner is assigned. When rows are left and the leaver was the owner (every remaining
  member having a \<open>players\<close> row and a non-empty uuid), the new owner is the
  \<open>preferred_owner\<close> of the remaining members: the first online member in the order
  rank descending, then membership id, and with no member online the first member of that
  order. When the leaver was not the owner, only the membership rows change.
\<close>

theorem leave_owner_reassignment:
  assumes owner: "readPartyOwnerUuid db pid = Inr ownerUuid"
  shows "(remainingMembers db pid u = [] \<longrightarrow>
            (\<exists>db'. handlePartyMemberLeave online pid u db = Inr db' \<and>
                   find_party db' pid = None \<and>
                   parties db' = filter (\<lambda>p. p_id p \<noteq> pid) (parties db) \<and>
                   partyMembers db' = partyMembers (clearPlayerParty u db)))
       \<and> (remainingMembers db pid u \<noteq> [] \<and> u = ownerUuid \<and>
            (\<forall>m \<in> set (remainingMembers db pid u).
                players db (pm_uuid m) \<noteq> None \<and> pm_uuid m \<noteq> []) \<longrightarrow>
            (\<exists>db' r. handlePartyMemberLeave online pid u db = Inr db' \<and>
                     partyMembers db' = partyMembers (clearPlayerParty u db) \<and>
                     preferred_owner online db (remainingMembers db pid u) r \<and>
                     readPartyOwnerUuid db' pid = Inr (pm_uuid r)))
       \<and> (remainingMembers db pid u \<noteq> [] \<and> u \<noteq> ownerUuid \<longrightarrow>
            handlePartyMemberLeave online pid u db = Inr (clearPlayerParty u db))"
proof (intro conjI impI)
  assume empty: "remainingMembers db pid u = []"
  let ?db' = "(clearPlayerParty u db)\<lparr>parties := filter (\<lambda>p. p_id p \<noteq> pid) (parties db)\<rparr>"
  have "handlePartyMemberLeave online pid u db = Inr ?db'"
    using owner leave_emptied [OF empty] by (simp add: handlePartyMemberLeave_def)
  moreover have "find_party ?db' pid = None"
    by (simp add: find_party_def find_None_iff)
  ultimately show "\<exists>db'. handlePartyMemberLeave online pid u db = Inr db' \<and>
      find_party db' pid = None \<and>
      parties db' = filter (\<lambda>p. p_id p \<noteq> pid) (parties db) \<and>
      partyMembers db' = partyMembers (clearPlayerParty u db)"
    by simp
next
  assume h: "remainingMembers db pid u \<noteq> [] \<and> u = ownerUuid \<and>
     (\<forall>m \<in> set (remainingMembers db pid u). players db (pm_uuid m) \<noteq> None \<and> pm_uuid m \<noteq> [])"
  then have ne: "remainingMembers db pid u \<noteq> []" and u: "u = ownerUuid"
    and wf: "\<forall>m \<in> set (remainingMembers db pid u). players db (pm_uuid m) \<noteq> None \<and> pm_uuid m \<noteq> []"
    by auto
  have ex: "find_party db pid \<noteq> None"
    using owner by (auto simp: readPartyOwnerUuid_def split: option.splits)
  have res: "handlePartyMemberLeave online pid u db
               = Inr (assumeNextPartyOwner online pid (clearPlayerParty u db))"
    using owner u leave_not_emptied [OF ne] by (simp add: handlePartyMemberLeave_def)
  from assumeNextPartyOwner_preferred [OF ne wf ex, of online]
  obtain r where "preferred_owner online db (remainingMembers db pid u) r"
    and "readPartyOwnerUuid (assumeNextPartyOwner online pid (clearPlayerParty u db)) pid
           = Inr (pm_uuid r)"
    by blast
  with res show "\<exists>db' r. handlePartyMemberLeave online pid u db = Inr db' \<and>
      partyMembers db' = partyMembers (clearPlayerParty u db) \<and>
      preferred_owner online db (remainingMembers db pid u) r \<and>
      readPartyOwnerUuid db' pid = Inr (pm_uuid r)"
    by auto
next
  assume "remainingMembers db pid u \<noteq> [] \<and> u \<noteq> ownerUuid"
  then show "handlePartyMemberLeave online pid u db = Inr (clearPlayerParty u db)"
    using owner leave_not_emptied [of db pid u] by (simp add: handlePartyMemberLeave_def)
qed

lemma db_three_remaining:
  "remainingMembers db_three 1 ''A''
     = [\<lparr>pm_id = 2, pm_partyId = 1, pm_uuid = ''B''\<rparr>, \<lparr>pm_id = 3, pm_partyId = 1, pm_uuid = ''C''\<rparr>]"
  by (simp add: remainingMembers_def clearPlayerParty_def db_three_def in_game_def)

text \<open>The owner \<open>A\<close> leaves the party of three while only \<open>B\<close> is online.\<close>

theorem leave_owner_reassignment_witness:
  "readPartyOwnerUuid db_three 1 = Inr ''A'' \<and>
   remainingMembers db_three 1 ''A'' \<noteq> [] \<and>
   (\<exists>db' r. handlePartyMemberLeave (\<lambda>u. u = ''B'') 1 ''A'' db_three = Inr db' \<and>
            partyMembers db' = partyMembers (clearPlayerParty ''A'' db_three) \<and>
            preferred_owner (\<lambda>u. u = ''B'') db_three (remainingMembers db_three 1 ''A'') r \<and>
            readPartyOwnerUuid db' 1 = Inr (pm_uuid r))"
proof -
  have o: "readPartyOwnerUuid db_three 1 = Inr ''A''"
    by (simp add: readPartyOwnerUuid_def find_party_def db_three_def)
  have wf: "\<forall>m \<in> set (remainingMembers db_three 1 ''A'').
              players db_three (pm_uuid m) \<noteq> None \<and> pm_uuid m \<noteq> []"
    by (simp add: db_three_remaining) (simp add: db_three_def)
  have ne: "remainingMembers db_three 1 ''A'' \<noteq> []"
    by (simp add: db_three_remaining)
  show ?thesis
    using leave_owner_reassignment [OF o, of "''A''" "\<lambda>u. u = ''B''"] o wf ne by blast
qed

lemma leave_examples:
  "map_sum id (\<lambda>d. (map p_owner (parties d), map pm_uuid (partyMembers d)))
     (handlePartyMemberLeave (\<lambda>u. u = ''B'') 1 ''A'' db_three) = Inr ([Some ''B''], [''B'', ''C''])"
  "map_sum id (\<lambda>d. (map p_owner (parties d), map pm_uuid (partyMembers d)))
     (handlePartyMemberLeave (\<lambda>u. False) 1 ''A'' db_three) = Inr ([Some ''C''], [''B'', ''C''])"
  by (simp_all add: handlePartyMemberLeave_def readPartyOwnerUuid_def find_party_def db_three_def
      clearPlayerParty_def in_game_def checkDeleteOrphanedParty_def readPartyMemberCount_def
      assumeNextPartyOwner_def readPartyMemberUuids_def orderedPartyMembers_def member_key_def
      nextOnlinePlayerUuid_def setPartyOwner_def Let_def)

section \<open>Party coordination: joining and kicking\<close>

lemma handleError_fresh [simp]: "handleError payload (None, []) = (Some 400, payload)"
  by (simp add: handleError_def Write_def WriteHeader_def)

lemma Write_fresh [simp]: "Write b (None, []) = (Some 200, b)"
  by (simp add: Write_def)

lemma handleParty_join:
  assumes "\<not> rq_banned rq" and "param rq ''command'' = Some ''join''"
  shows "handleParty online rq db = Some (party_join rq db (None, []))"
  using assms by (simp add: handleParty_def)

lemma party_join_skips_gate:
  assumes "param rq ''partyId'' = Some s" and "Atoi s = Some pid" and "rq_rank rq \<noteq> 0"
  shows "party_join rq db (None, []) = join_proceeds rq pid db"
  using assms by (simp add: party_join_def join_proceeds_def)

text \<open>
  Claim C10. A join by a requester of rank 1 or higher who is not banned, with a
  \<open>partyId\<close> that parses: the handler never reads whether the party is public, its
  password or the \<open>pass\<close> parameter. The request fails only when the requester is
  already in a party; otherwise the membership row is created.
\<close>

theorem join_rank_bypass:
  assumes "\<not> rq_banned rq" and "param rq ''command'' = Some ''join''"
    and "param rq ''partyId'' = Some s" and "Atoi s = Some pid"
    and "1 \<le> rq_rank rq"
  shows "handleParty online rq db = Some (join_proceeds rq pid db)"
proof -
  from assms(5) have "rq_rank rq \<noteq> 0" by simp
  then show ?thesis
    using handleParty_join [OF assms(1,2)] party_join_skips_gate [OF assms(3,4)] by simp
qed

lemma db_three_facts:
  "readPartyPublic db_three 1 = Inr False" "readPartyPass db_three 1 = Inr ''xyz''"
  "find_party db_three 1 = Some \<lparr>p_id = 1, p_game = ''2kki'', p_owner = Some ''A'',
      p_public = False, p_pass = ''xyz''\<rparr>"
  by (simp_all add: readPartyPublic_def readPartyPass_def find_party_def db_three_def)

lemma Atoi_1: "Atoi ''1'' = Some 1"
  by (simp add: Atoi_def is_digit_def)

text \<open>A moderator joins the private party without any \<open>pass\<close> parameter.\<close>

theorem join_rank_bypass_witness:
  "readPartyPublic db_three 1 = Inr False \<and> readPartyPass db_three 1 = Inr ''xyz'' \<and>
   param rq_mod_join ''pass'' = None \<and>
   handleParty (\<lambda>u. False) rq_mod_join db_three
     = Some ((Some 200, ''ok''), createPlayerParty 1 ''D'' db_three)"
proof -
  have a: "\<not> rq_banned rq_mod_join" "param rq_mod_join ''command'' = Some ''join''"
    "param rq_mod_join ''partyId'' = Some ''1''" "1 \<le> rq_rank rq_mod_join"
    "param rq_mod_join ''pass'' = None" "rq_uuid rq_mod_join = ''D''"
    by (simp_all add: rq_mod_join_def request_def param_def)
  have b: "readPlayerPartyId db_three ''D'' = 0"
    by (simp add: readPlayerPartyId_def db_three_def)
  show ?thesis
    using join_rank_bypass [OF a(1,2,3) Atoi_1 a(4), of "\<lambda>u. False" db_three] a(5,6) b
    by (simp add: join_proceeds_def db_three_facts)
qed

text \<open>
  Claim C6 as stated covers every requester. A moderator who supplies the wrong password
  to the private party is answered 200 and becomes a member.
\<close>

theorem join_private_every_requester_counterexample:
  "readPartyPublic db_three 1 = Inr False \<and> readPartyPass db_three 1 = Inr ''xyz'' \<and>
   param rq_mod_wrong ''pass'' = Some ''wrong'' \<and>
   handleParty (\<lambda>u. False) rq_mod_wrong db_three
     = Some ((Some 200, ''ok''), createPlayerParty 1 ''D'' db_three) \<and>
   readPlayerPartyId (createPlayerParty 1 ''D'' db_three) ''D'' = 1"
  by (simp add: db_three_facts)
     (simp add: rq_mod_wrong_def request_def param_def handleParty_def party_join_def Atoi_1
        readPlayerPartyId_def db_three_def createPlayerParty_def in_game_def)

lemma join_gate_private:
  assumes "find_party db pid = Some p" and "\<not> p_public p"
  shows "join_gate rq pid db (None, []) =
     (case param rq ''pass'' of
        None \<Rightarrow> ((Some 400, ''pass not specified''), True)
      | Some pw \<Rightarrow> if p_pass p \<noteq> [] \<and> pw \<noteq> p_pass p then (unauthorized, True)
                   else ((None, []), False))"
  using assms
  by (simp add: join_gate_def readPartyPublic_def readPartyPass_def unauthorized_def
      Write_def WriteHeader_def split: option.splits)

text \<open>
  Claim C6, amended to the requesters the password gate applies to. A join of a private
  party by a requester of rank 0 who is not banned, with a \<open>partyId\<close> that parses: a
  supplied password that differs from a non-empty stored one is answered 401 and the
  store is unchanged; with an empty stored password, or the stored password supplied, the
  join proceeds to the membership check; without a \<open>pass\<close> parameter the answer is the
  400 \<open>pass not specified\<close>; a requester already in a party leaves the store
  unchanged and is answered 400 or 401.
\<close>

theorem join_private_rank0:
  assumes "\<not> rq_banned rq" and "param rq ''command'' = Some ''join''"
    and "param rq ''partyId'' = Some s" and "Atoi s = Some pid"
    and "rq_rank rq = 0"
    and "find_party db pid = Some p" and "\<not> p_public p"
  shows "(\<forall>pw. param rq ''pass'' = Some pw \<and> p_pass p \<noteq> [] \<and> pw \<noteq> p_pass p \<longrightarrow>
            handleParty online rq db = Some (unauthorized, db))
       \<and> (\<forall>pw. param rq ''pass'' = Some pw \<and> (p_pass p = [] \<or> pw = p_pass p) \<longrightarrow>
            handleParty online rq db = Some (join_proceeds rq pid db))
       \<and> (param rq ''pass'' = None \<longrightarrow>
            handleParty online rq db = Some ((Some 400, ''pass not specified''), db))
       \<and> (0 < readPlayerPartyId db (rq_uuid rq) \<longrightarrow>
            (\<exists>w. handleParty online rq db = Some (w, db) \<and> fst w \<in> {Some 400, Some 401}))"
proof -
  have hp: "handleParty online rq db = Some (party_join rq db (None, []))"
    by (rule handleParty_join [OF assms(1,2)])
  have pj: "party_join rq db (None, []) =
      (case join_gate rq pid db (None, []) of
         (w1, returned) \<Rightarrow> if returned then (w1, db)
            else if 0 < readPlayerPartyId db (rq_uuid rq)
            then (handleError ''player already in a party'' w1, db)
            else (Write ''ok'' w1, createPlayerParty pid (rq_uuid rq) db))"
    using assms(3,4,5) by (simp add: party_join_def)
  note g = join_gate_private [OF assms(6,7), of rq]
  show ?thesis
  proof (intro conjI allI impI)
    fix pw assume "param rq ''pass'' = Some pw \<and> p_pass p \<noteq> [] \<and> pw \<noteq> p_pass p"
    then show "handleParty online rq db = Some (unauthorized, db)"
      by (simp add: hp pj g)
  next
    fix pw assume "param rq ''pass'' = Some pw \<and> (p_pass p = [] \<or> pw = p_pass p)"
    then show "handleParty online rq db = Some (join_proceeds rq pid db)"
      by (auto simp: hp pj g join_proceeds_def)
  next
    assume "param rq ''pass'' = None"
    then show "handleParty online rq db = Some ((Some 400, ''pass not specified''), db)"
      by (simp add: hp pj g)
  next
    assume "0 < readPlayerPartyId db (rq_uuid rq)"
    then show "\<exists>w. handleParty online rq db = Some (w, db) \<and> fst w \<in> {Some 400, Some 401}"
      by (auto simp: hp pj g unauthorized_def split: option.splits)
  qed
qed

text \<open>
  The scenario of the specification: \<open>wrong\<close> is unauthorized, \<open>xyz\<close> joins.
\<close>

theorem join_private_rank0_witness:
  "handleParty (\<lambda>u. False) rq_guest_wrong db_three = Some (unauthorized, db_three) \<and>
   handleParty (\<lambda>u. False) rq_guest_right db_three
     = Some ((Some 200, ''ok''), createPlayerParty 1 ''D'' db_three)"
proof -
  have a: "\<not> rq_banned rq_guest_wrong" "param rq_guest_wrong ''command'' = Some ''join''"
    "param rq_guest_wrong ''partyId'' = Some ''1''" "rq_rank rq_guest_wrong = 0"
    "param rq_guest_wrong ''pass'' = Some ''wrong''"
    by (simp_all add: rq_guest_wrong_def request_def param_def)
  have b: "\<not> rq_banned rq_guest_right" "param rq_guest_right ''command'' = Some ''join''"
    "param rq_guest_right ''partyId'' = Some ''1''" "rq_rank rq_guest_right = 0"
    "param rq_guest_right ''pass'' = Some ''xyz''" "rq_uuid rq_guest_right = ''D''"
    by (simp_all add: rq_guest_right_def request_def param_def)
  have c: "readPlayerPartyId db_three ''D'' = 0"
    by (simp add: readPlayerPartyId_def db_three_def)
  have p: "\<not> p_public \<lparr>p_id = 1, p_game = ''2kki'', p_owner = Some ''A'',
      p_public = False, p_pass = ''xyz''\<rparr>"
    by simp
  show ?thesis
    using join_private_rank0 [OF a(1,2,3) Atoi_1 a(4) db_three_facts(3) p, of "\<lambda>u. False"]
      join_private_rank0 [OF b(1,2,3) Atoi_1 b(4) db_three_facts(3) p, of "\<lambda>u. False"]
      a(5) b(5,6) c
    by (simp add: join_proceeds_def)
qed

text \<open>
  Claim C5 at the input where the code departs from it: the owner \<open>A\<close> of the party
  of three asks to kick \<open>A\<close>. Both checks pass (the requester is the owner, the target
  is in the requester's party), the answer is 200 \<open>ok\<close>, the owner's membership row
  is deleted and the party still names \<open>A\<close> as its owner.
\<close>

theorem kick_self_removes_owner:
  "handleParty (\<lambda>u. False) rq_self_kick db_three
     = Some ((Some 200, ''ok''), clearPlayerParty ''A'' db_three) \<and>
   readPartyOwnerUuid (clearPlayerParty ''A'' db_three) 1 = Inr ''A'' \<and>
   readPlayerPartyId (clearPlayerParty ''A'' db_three) ''A'' = 0 \<and>
   map pm_uuid (partyMembers (clearPlayerParty ''A'' db_three)) = [''B'', ''C'']"
  by (simp add: rq_self_kick_def request_def param_def handleParty_def party_kick_transfer_def
        readPlayerPartyId_def db_three_def clearPlayerParty_def in_game_def
        readPartyOwnerUuid_def find_party_def)

section \<open>The registry: the invariant\<close>

lemma scan_id_result:
  "scan_id used mx i = r \<Longrightarrow> 1 \<le> i \<Longrightarrow>
     (r = 0 \<and> (\<forall>j. i \<le> j \<and> j \<le> mx \<longrightarrow> used j)) \<or>
     (i \<le> r \<and> r \<le> mx \<and> \<not> used r \<and> (\<forall>j. i \<le> j \<and> j < r \<longrightarrow> used j))"
proof (induction used mx i rule: scan_id.induct)
  case (1 used mx i)
  show ?case
  proof (cases "i \<le> mx")
    case False
    then show ?thesis using "1.prems" by (auto simp: scan_id.simps [of used mx i])
  next
    case le: True
    show ?thesis
    proof (cases "used i")
      case False
      then show ?thesis using le "1.prems" by (auto simp: scan_id.simps [of used mx i])
    next
      case True
      then have r: "scan_id used mx (i + 1) = r"
        using le "1.prems" by (simp add: scan_id.simps [of used mx i])
      from "1.IH" [OF le _ r] True "1.prems"(2)
      have "(r = 0 \<and> (\<forall>j. i + 1 \<le> j \<and> j \<le> mx \<longrightarrow> used j)) \<or>
            (i + 1 \<le> r \<and> r \<le> mx \<and> \<not> used r \<and> (\<forall>j. i + 1 \<le> j \<and> j < r \<longrightarrow> used j))"
        by simp
      then show ?thesis
      proof
        assume a: "r = 0 \<and> (\<forall>j. i + 1 \<le> j \<and> j \<le> mx \<longrightarrow> used j)"
        have "\<forall>j. i \<le> j \<and> j \<le> mx \<longrightarrow> used j"
        proof (intro allI impI)
          fix j assume "i \<le> j \<and> j \<le> mx"
          then show "used j" using a True by (cases "j = i") auto
        qed
        then show ?thesis using a by simp
      next
        assume a: "i + 1 \<le> r \<and> r \<le> mx \<and> \<not> used r \<and> (\<forall>j. i + 1 \<le> j \<and> j < r \<longrightarrow> used j)"
        have "\<forall>j. i \<le> j \<and> j < r \<longrightarrow> used j"
        proof (intro allI impI)
          fix j assume "i \<le> j \<and> j < r"
          then show "used j" using a True by (cases "j = i") auto
        qed
        then show ?thesis using a by simp
      qed
    qed
  qed
qed

lemma registry_ok_new: "registry_ok (newSessionWs w)"
  by (simp add: registry_ok_def newSessionWs_def id_in_use_def)

lemma registry_ok_writeErrLog [simp]: "registry_ok (writeErrLog a b c s) = registry_ok s"
  by (simp add: registry_ok_def writeErrLog_def id_in_use_def)

lemma registry_ok_writeLog [simp]: "registry_ok (writeLog a b c d s) = registry_ok s"
  by (simp add: registry_ok_def writeLog_def id_in_use_def)

lemma registry_ok_register:
  assumes ok: "registry_ok s" and free: "\<not> ids s (c_id c)" and op: "\<not> closed (c_send c)"
  shows "registry_ok (register (nextRef s) c s)"
proof -
  let ?r = "nextRef s"
  let ?s' = "register ?r c s"
  have fresh: "?r \<notin> set (clients s)"
    using ok by (auto simp: registry_ok_def)
  have heap_old: "\<And>x. x \<in> set (clients s) \<Longrightarrow> heap ?s' x = heap s x"
    using fresh by (auto simp: register_def)
  have cl: "clients ?s' = clients s @ [?r]" by (simp add: register_def)
  have not_used: "\<not> id_in_use s (c_id c)"
    using ok free by (simp add: registry_ok_def)
  have d: "distinct (clients ?s')" using ok fresh by (simp add: cl registry_ok_def)
  have b: "\<forall>x \<in> set (clients ?s'). x < nextRef ?s' \<and> \<not> closed (c_send (heap ?s' x))"
    using ok op by (auto simp: register_def registry_ok_def less_Suc_eq)
  have i: "\<forall>i. ids ?s' i = id_in_use ?s' i"
  proof
    fix i
    have "id_in_use ?s' i = (i = c_id c \<or> id_in_use s i)"
      using fresh by (auto simp: id_in_use_def register_def)
    then show "ids ?s' i = id_in_use ?s' i"
      using ok by (auto simp: register_def registry_ok_def)
  qed
  have j: "inj_on (\<lambda>x. c_id (heap ?s' x)) (set (clients ?s'))"
  proof (rule inj_onI)
    fix x y
    assume x: "x \<in> set (clients ?s')" and y: "y \<in> set (clients ?s')"
      and e: "c_id (heap ?s' x) = c_id (heap ?s' y)"
    have new: "c_id (heap ?s' ?r) = c_id c" by (simp add: register_def)
    have old: "\<And>z. z \<in> set (clients s) \<Longrightarrow> c_id (heap ?s' z) \<noteq> c_id c"
      using not_used heap_old by (auto simp: id_in_use_def)
    have inj: "inj_on (\<lambda>x. c_id (heap s x)) (set (clients s))"
      using ok by (simp add: registry_ok_def)
    show "x = y"
    proof (cases "x = ?r")
      case True
      then show ?thesis using y e new old by (auto simp: cl)
    next
      case False
      then have xs: "x \<in> set (clients s)" using x by (simp add: cl)
      show ?thesis
      proof (cases "y = ?r")
        case True
        then show ?thesis using xs e new old by auto
      next
        case False
        then have ys: "y \<in> set (clients s)" using y by (simp add: cl)
        from e have "c_id (heap s x) = c_id (heap s y)"
          using heap_old xs ys by simp
        then show ?thesis using inj xs ys by (auto dest: inj_onD)
      qed
    qed
  qed
  show ?thesis using d b i j by (simp add: registry_ok_def)
qed

lemma new_client_open [simp]: "\<not> closed (c_send (new_client cfg conn online info i))"
  by (simp add: new_client_def make_chan_def)

lemma new_client_id [simp]: "c_id (new_client cfg conn online info i) = i"
  by (simp add: new_client_def)

lemma registry_ok_admit:
  assumes ok: "registry_ok s"
  shows "registry_ok (admit cfg conn online info s)"
proof (cases "3 \<le> same_ip_count s (ci_Ip conn) \<or> scan_id (ids s) (maxID cfg) 1 = 0")
  case True
  then show ?thesis using ok by (auto simp: admit_def Let_def)
next
  case False
  let ?i = "scan_id (ids s) (maxID cfg) 1"
  from False have nz: "?i \<noteq> 0" and few: "\<not> 3 \<le> same_ip_count s (ci_Ip conn)" by auto
  have "\<not> ids s ?i"
    using scan_id_result [of "ids s" "maxID cfg" 1 ?i] nz by auto
  then have "registry_ok (register (nextRef s) (new_client cfg conn online info ?i) s)"
    using ok by (intro registry_ok_register) simp_all
  then show ?thesis using nz few by (simp add: admit_def Let_def)
qed

lemma registry_ok_connect: "registry_ok s \<Longrightarrow> registry_ok (connect cfg conn info s)"
  by (simp add: connect_def registry_ok_admit)

lemma deleteClient_registered:
  assumes ok: "registry_ok s" and reg: "c \<in> set (clients s)"
  shows "deleteClient cfg c s =
           Inr (s\<lparr>world := updatePlayerGameData cfg (heap s c) (world s),
                  ids := (ids s)(c_id (heap s c) := False),
                  clients := removeAll c (clients s),
                  sessionClients := (sessionClients s)(c_uuid (heap s c) := None),
                  heap := (heap s)(c := (heap s c)\<lparr>c_send := (c_send (heap s c))\<lparr>closed := True\<rparr>\<rparr>)\<rparr>)"
  using ok reg by (auto simp: deleteClient_def close_chan_def registry_ok_def Let_def)

lemma registry_ok_deleted:
  assumes ok: "registry_ok s" and reg: "c \<in> set (clients s)"
    and del: "deleteClient cfg c s = Inr s'"
  shows "registry_ok s'"
proof -
  note s' = del [unfolded deleteClient_registered [OF ok reg], simplified, symmetric]
  have cl: "clients s' = removeAll c (clients s)" by (simp add: s')
  have heap_other: "\<And>x. x \<noteq> c \<Longrightarrow> heap s' x = heap s x" by (simp add: s')
  have inj: "inj_on (\<lambda>x. c_id (heap s x)) (set (clients s))"
    using ok by (simp add: registry_ok_def)
  have d: "distinct (clients s')" using ok by (simp add: cl registry_ok_def distinct_removeAll)
  have b: "\<forall>x \<in> set (clients s'). x < nextRef s' \<and> \<not> closed (c_send (heap s' x))"
    using ok by (auto simp: s' registry_ok_def)
  have i: "\<forall>i. ids s' i = id_in_use s' i"
  proof
    fix i
    have "id_in_use s' i = (\<exists>x \<in> set (clients s). x \<noteq> c \<and> c_id (heap s x) = i)"
      by (auto simp: id_in_use_def s')
    also have "\<dots> = (i \<noteq> c_id (heap s c) \<and> id_in_use s i)"
      using inj reg by (auto simp: id_in_use_def dest: inj_onD)
    finally show "ids s' i = id_in_use s' i"
      using ok by (auto simp: s' registry_ok_def)
  qed
  have j: "inj_on (\<lambda>x. c_id (heap s' x)) (set (clients s'))"
  proof (rule inj_onI)
    fix x y
    assume "x \<in> set (clients s')" and "y \<in> set (clients s')"
      and "c_id (heap s' x) = c_id (heap s' y)"
    then show "x = y"
      using inj heap_other by (auto simp: cl dest: inj_onD)
  qed
  show ?thesis using d b i j by (simp add: registry_ok_def)
qed

lemma unregister_total:
  assumes ok: "registry_ok s"
  shows "\<exists>s'. unregister cfg c s = Inr s' \<and> registry_ok s'"
proof (cases "c \<in> set (clients s)")
  case True
  from deleteClient_registered [OF ok True, of cfg]
  obtain s1 where d: "deleteClient cfg c s = Inr s1" by blast
  have "registry_ok s1" by (rule registry_ok_deleted [OF ok True d])
  then show ?thesis using True d by (simp add: unregister_def)
next
  case False
  then show ?thesis using ok by (simp add: unregister_def)
qed

lemma heap_upd_same_id:
  "c_id (delivered data v) = c_id v" "closed (c_send (delivered data v)) = closed (c_send v)"
  by (simp_all add: delivered_def)

lemma registry_ok_delivered:
  assumes ok: "registry_ok s"
  shows "registry_ok (s\<lparr>heap := (heap s)(c := delivered data (heap s c))\<rparr>)"
proof -
  let ?s1 = "s\<lparr>heap := (heap s)(c := delivered data (heap s c))\<rparr>"
  have idq: "\<And>x. c_id (heap ?s1 x) = c_id (heap s x)"
    by (simp add: heap_upd_same_id)
  have clq: "\<And>x. closed (c_send (heap ?s1 x)) = closed (c_send (heap s x))"
    by (simp add: heap_upd_same_id)
  have "id_in_use ?s1 = id_in_use s"
    unfolding id_in_use_def fun_eq_iff idq by simp
  moreover have "inj_on (\<lambda>x. c_id (heap ?s1 x)) (set (clients ?s1))
     = inj_on (\<lambda>x. c_id (heap s x)) (set (clients s))"
    unfolding idq by simp
  ultimately show ?thesis
    using ok unfolding registry_ok_def clq by simp
qed


lemma broadcast_step_room:
  assumes "registry_ok s" and "c \<in> set (clients s)" and "has_room s c"
  shows "broadcast cfg data (c # rest) s =
           broadcast cfg data rest (s\<lparr>heap := (heap s)(c := delivered data (heap s c))\<rparr>)"
proof -
  have "\<not> closed (c_send (heap s c))"
    using assms(1,2) by (simp add: registry_ok_def)
  then have "try_send data (c_send (heap s c))
      = Sent ((c_send (heap s c))\<lparr>buf := buf (c_send (heap s c)) @ [data]\<rparr>)"
    using assms(3) by (simp add: try_send_def has_room_def)
  then show ?thesis by (simp add: delivered_def)
qed

lemma broadcast_step_full:
  assumes "registry_ok s" and "c \<in> set (clients s)" and "\<not> has_room s c"
    and "deleteClient cfg c s = Inr s1"
  shows "broadcast cfg data (c # rest) s = broadcast cfg data rest s1"
proof -
  have "\<not> closed (c_send (heap s c))"
    using assms(1,2) by (simp add: registry_ok_def)
  then have "try_send data (c_send (heap s c)) = WouldBlock"
    using assms(3) by (simp add: try_send_def has_room_def)
  then show ?thesis using assms(4) by simp
qed

section \<open>The registry: broadcast\<close>

lemma broadcast_post_Nil: "broadcast_post data [] s s"
  by (simp add: broadcast_post_def)

lemma has_room_heap_upd:
  "x \<noteq> c \<Longrightarrow> has_room (s\<lparr>heap := (heap s)(c := v)\<rparr>) x = has_room s x"
  by (simp add: has_room_def)

lemma broadcast_post_room:
  assumes room: "has_room s c" and new: "c \<notin> set rest"
    and post: "broadcast_post data rest (s\<lparr>heap := (heap s)(c := delivered data (heap s c))\<rparr>) s'"
  shows "broadcast_post data (c # rest) s s'"
proof -
  let ?s1 = "s\<lparr>heap := (heap s)(c := delivered data (heap s c))\<rparr>"
  have r: "\<And>x. x \<in> set rest \<Longrightarrow> has_room ?s1 x = has_room s x"
    using new by (auto simp: has_room_def)
  have h: "\<And>x. x \<in> set rest \<Longrightarrow> heap ?s1 x = heap s x"
    using new by auto
  have c1: "clients s' = filter (\<lambda>x. x \<notin> set (c # rest) \<or> has_room s x) (clients s)"
  proof -
    have "clients s' = filter (\<lambda>x. x \<notin> set rest \<or> has_room ?s1 x) (clients s)"
      using post by (simp add: broadcast_post_def)
    also have "\<dots> = filter (\<lambda>x. x \<notin> set (c # rest) \<or> has_room s x) (clients s)"
      using room new by (intro filter_cong refl) (auto simp: has_room_def)
    finally show ?thesis .
  qed
  have c2: "heap s' x =
         (if x \<in> set (c # rest)
          then (if has_room s x then delivered data (heap s x) else evicted (heap s x))
          else heap s x)" for x
  proof -
    have p: "heap s' x =
         (if x \<in> set rest
          then (if has_room ?s1 x then delivered data (heap ?s1 x) else evicted (heap ?s1 x))
          else heap ?s1 x)"
      using post by (simp add: broadcast_post_def)
    show ?thesis
    proof (cases "x \<in> set rest")
      case True
      then show ?thesis using p r [OF True] h [OF True] by simp
    next
      case False
      then show ?thesis using p room by (cases "x = c") simp_all
    qed
  qed
  have c3: "ids s' i =
         (ids s i \<and> \<not> (\<exists>x \<in> set (c # rest). \<not> has_room s x \<and> c_id (heap s x) = i))" for i
  proof -
    have a: "ids s' i =
         (ids ?s1 i \<and> \<not> (\<exists>x \<in> set rest. \<not> has_room ?s1 x \<and> c_id (heap ?s1 x) = i))"
      using post by (simp add: broadcast_post_def)
    have b: "(\<exists>x \<in> set rest. \<not> has_room ?s1 x \<and> c_id (heap ?s1 x) = i)
       = (\<exists>x \<in> set rest. \<not> has_room s x \<and> c_id (heap s x) = i)"
      using new by (intro bex_cong refl) (auto simp: has_room_def)
    have e: "ids ?s1 i = ids s i" by simp
    have f: "(\<exists>x \<in> set (c # rest). \<not> has_room s x \<and> c_id (heap s x) = i)
       = (\<exists>x \<in> set rest. \<not> has_room s x \<and> c_id (heap s x) = i)"
      using room by simp
    show ?thesis by (simp only: a b e f)
  qed
  have c4: "sessionClients s' u =
         (if \<exists>x \<in> set (c # rest). \<not> has_room s x \<and> c_uuid (heap s x) = u then None
          else sessionClients s u)" for u
  proof -
    have a: "sessionClients s' u =
         (if \<exists>x \<in> set rest. \<not> has_room ?s1 x \<and> c_uuid (heap ?s1 x) = u then None
          else sessionClients ?s1 u)"
      using post by (simp add: broadcast_post_def)
    have b: "(\<exists>x \<in> set rest. \<not> has_room ?s1 x \<and> c_uuid (heap ?s1 x) = u)
       = (\<exists>x \<in> set rest. \<not> has_room s x \<and> c_uuid (heap s x) = u)"
      using new by (intro bex_cong refl) (auto simp: has_room_def)
    have e: "sessionClients ?s1 u = sessionClients s u" by simp
    have f: "(\<exists>x \<in> set (c # rest). \<not> has_room s x \<and> c_uuid (heap s x) = u)
       = (\<exists>x \<in> set rest. \<not> has_room s x \<and> c_uuid (heap s x) = u)"
      using room by simp
    show ?thesis by (simp only: a b e f)
  qed
  show ?thesis
    unfolding broadcast_post_def using c1 c2 c3 c4 by blast
qed

lemma broadcast_post_full:
  assumes full: "\<not> has_room s c" and new: "c \<notin> set rest"
    and cl1: "clients s1 = removeAll c (clients s)"
    and hp1: "heap s1 = (heap s)(c := evicted (heap s c))"
    and id1: "ids s1 = (ids s)(c_id (heap s c) := False)"
    and sc1: "sessionClients s1 = (sessionClients s)(c_uuid (heap s c) := None)"
    and post: "broadcast_post data rest s1 s'"
  shows "broadcast_post data (c # rest) s s'"
proof -
  have h: "\<And>x. x \<noteq> c \<Longrightarrow> heap s1 x = heap s x"
    by (simp add: hp1)
  have r: "\<And>x. x \<noteq> c \<Longrightarrow> has_room s1 x = has_room s x"
    by (simp add: has_room_def h)
  have ne: "x \<noteq> c" if "x \<in> set rest" for x
    using that new by auto
  have r': "has_room s1 x = has_room s x" if "x \<in> set rest" for x
    by (rule r [OF ne [OF that]])
  have h': "heap s1 x = heap s x" if "x \<in> set rest" for x
    by (rule h [OF ne [OF that]])
  have c1: "clients s' = filter (\<lambda>x. x \<notin> set (c # rest) \<or> has_room s x) (clients s)"
  proof -
    have "clients s' = filter (\<lambda>x. x \<notin> set rest \<or> has_room s1 x) (removeAll c (clients s))"
      using post by (simp add: broadcast_post_def cl1)
    also have "\<dots> = filter (\<lambda>x. (x \<notin> set rest \<or> has_room s1 x) \<and> x \<noteq> c) (clients s)"
      by (simp add: removeAll_filter_not_eq) (intro filter_cong refl, auto)
    also have "\<dots> = filter (\<lambda>x. x \<notin> set (c # rest) \<or> has_room s x) (clients s)"
      using full new by (intro filter_cong refl) (auto simp: r')
    finally show ?thesis .
  qed
  have c2: "heap s' x =
         (if x \<in> set (c # rest)
          then (if has_room s x then delivered data (heap s x) else evicted (heap s x))
          else heap s x)" for x
  proof -
    have p: "heap s' x =
         (if x \<in> set rest
          then (if has_room s1 x then delivered data (heap s1 x) else evicted (heap s1 x))
          else heap s1 x)"
      using post by (simp add: broadcast_post_def)
    show ?thesis
    proof (cases "x = c")
      case True
      then show ?thesis using p new full by (simp add: hp1)
    next
      case False
      then show ?thesis using p r [OF False] h [OF False] by simp
    qed
  qed
  have c3: "ids s' i =
         (ids s i \<and> \<not> (\<exists>x \<in> set (c # rest). \<not> has_room s x \<and> c_id (heap s x) = i))" for i
  proof -
    have a: "ids s' i =
         (ids s1 i \<and> \<not> (\<exists>x \<in> set rest. \<not> has_room s1 x \<and> c_id (heap s1 x) = i))"
      using post by (simp add: broadcast_post_def)
    have b: "(\<exists>x \<in> set rest. \<not> has_room s1 x \<and> c_id (heap s1 x) = i)
       = (\<exists>x \<in> set rest. \<not> has_room s x \<and> c_id (heap s x) = i)"
      by (intro bex_cong refl) (simp add: r' h')
    have e: "ids s1 i = (ids s i \<and> i \<noteq> c_id (heap s c))" by (auto simp: id1)
    have f: "(\<exists>x \<in> set (c # rest). \<not> has_room s x \<and> c_id (heap s x) = i)
       = (c_id (heap s c) = i \<or> (\<exists>x \<in> set rest. \<not> has_room s x \<and> c_id (heap s x) = i))"
      using full by simp
    show ?thesis unfolding a b e f by blast
  qed
  have c4: "sessionClients s' u =
         (if \<exists>x \<in> set (c # rest). \<not> has_room s x \<and> c_uuid (heap s x) = u then None
          else sessionClients s u)" for u
  proof -
    have a: "sessionClients s' u =
         (if \<exists>x \<in> set rest. \<not> has_room s1 x \<and> c_uuid (heap s1 x) = u then None
          else sessionClients s1 u)"
      using post by (simp add: broadcast_post_def)
    have b: "(\<exists>x \<in> set rest. \<not> has_room s1 x \<and> c_uuid (heap s1 x) = u)
       = (\<exists>x \<in> set rest. \<not> has_room s x \<and> c_uuid (heap s x) = u)"
      by (intro bex_cong refl) (simp add: r' h')
    have e: "sessionClients s1 u = (if c_uuid (heap s c) = u then None else sessionClients s u)"
      by (auto simp: sc1)
    have f: "(\<exists>x \<in> set (c # rest). \<not> has_room s x \<and> c_uuid (heap s x) = u)
       = (c_uuid (heap s c) = u \<or> (\<exists>x \<in> set rest. \<not> has_room s x \<and> c_uuid (heap s x) = u))"
      using full by simp
    show ?thesis unfolding a b e f by auto
  qed
  show ?thesis
    unfolding broadcast_post_def using c1 c2 c3 c4 by blast
qed

lemma broadcast_characterised:
  assumes "registry_ok s" and "distinct order" and "set order \<subseteq> set (clients s)"
  shows "\<exists>s'. broadcast cfg data order s = Inr s' \<and> registry_ok s' \<and>
            broadcast_post data order s s'"
  using assms
proof (induction order arbitrary: s)
  case Nil
  then show ?case by (simp add: broadcast_post_Nil)
next
  case (Cons c rest)
  from Cons.prems have ok: "registry_ok s" and c_reg: "c \<in> set (clients s)"
    and c_new: "c \<notin> set rest" and d: "distinct rest" and sub: "set rest \<subseteq> set (clients s)"
    by auto
  show ?case
  proof (cases "has_room s c")
    case True
    let ?s1 = "s\<lparr>heap := (heap s)(c := delivered data (heap s c))\<rparr>"
    have ok1: "registry_ok ?s1" by (rule registry_ok_delivered [OF ok])
    have sub1: "set rest \<subseteq> set (clients ?s1)" using sub by simp
    from Cons.IH [OF ok1 d sub1]
    obtain s' where r: "broadcast cfg data rest ?s1 = Inr s'" and ok': "registry_ok s'"
      and post: "broadcast_post data rest ?s1 s'"
      by blast
    have "broadcast cfg data (c # rest) s = Inr s'"
      using broadcast_step_room [OF ok c_reg True, of cfg data rest] r by simp
    moreover have "broadcast_post data (c # rest) s s'"
      by (rule broadcast_post_room [OF True c_new post])
    ultimately show ?thesis using ok' by blast
  next
    case False
    from deleteClient_registered [OF ok c_reg, of cfg]
    obtain s1 where del: "deleteClient cfg c s = Inr s1"
      and cl1: "clients s1 = removeAll c (clients s)"
      and hp1: "heap s1 = (heap s)(c := evicted (heap s c))"
      and id1: "ids s1 = (ids s)(c_id (heap s c) := False)"
      and sc1: "sessionClients s1 = (sessionClients s)(c_uuid (heap s c) := None)"
      by (simp add: evicted_def)
    have ok1: "registry_ok s1" by (rule registry_ok_deleted [OF ok c_reg del])
    have sub1: "set rest \<subseteq> set (clients s1)" using sub c_new by (auto simp: cl1)
    from Cons.IH [OF ok1 d sub1]
    obtain s' where r: "broadcast cfg data rest s1 = Inr s'" and ok': "registry_ok s'"
      and post: "broadcast_post data rest s1 s'"
      by blast
    have "broadcast cfg data (c # rest) s = Inr s'"
      using broadcast_step_full [OF ok c_reg False del, of data rest] r by simp
    moreover have "broadcast_post data (c # rest) s s'"
      by (rule broadcast_post_full [OF False c_new cl1 hp1 id1 sc1 post])
    ultimately show ?thesis using ok' by blast
  qed
qed

text \<open>
  Every state the actor reaches satisfies \<open>registry_ok\<close>; in particular no two
  registered clients ever hold the same id.
\<close>

lemma reachable_registry_ok: "reachable cfg s \<Longrightarrow> registry_ok s"
proof (induction rule: reachable.induct)
  case (reach_new w)
  show ?case by (rule registry_ok_new)
next
  case (reach_connect s conn info)
  then show ?case by (simp add: registry_ok_connect)
next
  case (reach_unregister s c s')
  from unregister_total [OF reach_unregister.IH, of cfg c] reach_unregister.hyps(2)
  show ?case by auto
next
  case (reach_broadcast s order data s')
  from broadcast_characterised [OF reach_broadcast.IH reach_broadcast.hyps(2), of cfg data]
    reach_broadcast.hyps(3,4)
  show ?case by auto
qed

text \<open>
  Claim C3. A broadcast over the registered clients, in any order, returns: it neither
  blocks nor panics. Every client whose buffer had room is still registered and has the
  payload at the end of its buffer; every client whose buffer was full is evicted by
  \<open>deleteClient\<close>: it is no longer registered, its id is free, its entry in
  \<open>sessionClients\<close> is gone and its channel is closed. Nothing else is registered
  afterwards.
\<close>

theorem broadcast_delivers_or_evicts:
  assumes "registry_ok s" and "distinct order" and "set order = set (clients s)"
  shows "\<exists>s'. broadcast cfg data order s = Inr s' \<and> registry_ok s' \<and>
           clients s' = filter (has_room s) (clients s) \<and>
           (\<forall>c \<in> set (clients s).
              (has_room s c \<longrightarrow>
                 c \<in> set (clients s') \<and> heap s' c = delivered data (heap s c)) \<and>
              (\<not> has_room s c \<longrightarrow>
                 c \<notin> set (clients s') \<and> heap s' c = evicted (heap s c) \<and>
                 \<not> ids s' (c_id (heap s c)) \<and>
                 sessionClients s' (c_uuid (heap s c)) = None))"
proof -
  from assms(3) have sub: "set order \<subseteq> set (clients s)" by simp
  from broadcast_characterised [OF assms(1,2) sub, of cfg data]
  obtain s' where r: "broadcast cfg data order s = Inr s'" and ok': "registry_ok s'"
    and post: "broadcast_post data order s s'"
    by blast
  have cl: "clients s' = filter (has_room s) (clients s)"
  proof -
    have "clients s' = filter (\<lambda>c. c \<notin> set order \<or> has_room s c) (clients s)"
      using post by (simp add: broadcast_post_def)
    also have "\<dots> = filter (has_room s) (clients s)"
      using assms(3) by (intro filter_cong refl) auto
    finally show ?thesis .
  qed
  have each: "(has_room s c \<longrightarrow>
                 c \<in> set (clients s') \<and> heap s' c = delivered data (heap s c)) \<and>
              (\<not> has_room s c \<longrightarrow>
                 c \<notin> set (clients s') \<and> heap s' c = evicted (heap s c) \<and>
                 \<not> ids s' (c_id (heap s c)) \<and>
                 sessionClients s' (c_uuid (heap s c)) = None)"
    if reg: "c \<in> set (clients s)" for c
  proof -
    have in_order: "c \<in> set order" using reg assms(3) by simp
    have hp: "heap s' c = (if has_room s c then delivered data (heap s c) else evicted (heap s c))"
      using post in_order by (simp add: broadcast_post_def)
    have idc: "\<not> has_room s c \<Longrightarrow> \<not> ids s' (c_id (heap s c))"
      using post in_order by (auto simp: broadcast_post_def)
    have scc: "\<not> has_room s c \<Longrightarrow> sessionClients s' (c_uuid (heap s c)) = None"
      using post in_order by (auto simp: broadcast_post_def)
    show ?thesis using reg hp idc scc by (simp add: cl)
  qed
  show ?thesis using r ok' cl each by blast
qed

lemma two_clients_ok: "registry_ok two_clients"
  by (auto simp: registry_ok_def two_clients_def id_in_use_def new_client_def make_chan_def)

lemma two_clients_room: "\<not> has_room two_clients 0" "has_room two_clients 1"
  by (simp_all add: has_room_def two_clients_def new_client_def make_chan_def)

text \<open>
  A broadcast that visits the client with room first and the full one second.
\<close>

theorem broadcast_delivers_or_evicts_witness:
  "registry_ok two_clients \<and> \<not> has_room two_clients 0 \<and> has_room two_clients 1 \<and>
   (\<exists>s'. broadcast cfg3 ''pc|2'' [1, 0] two_clients = Inr s' \<and> registry_ok s' \<and>
         clients s' = [1] \<and>
         heap s' 1 = delivered ''pc|2'' (heap two_clients 1) \<and>
         heap s' 0 = evicted (heap two_clients 0) \<and>
         \<not> ids s' 1 \<and> sessionClients s' ''u1'' = None)"
proof -
  have d: "distinct [1, 0 :: cref]" by simp
  have e: "set [1, 0] = set (clients two_clients)" by (auto simp: two_clients_def)
  have cl: "clients two_clients = [0, 1]" by (simp add: two_clients_def)
  have f: "c_id (heap two_clients 0) = 1" "c_uuid (heap two_clients 0) = ''u1''"
    by (simp_all add: two_clients_def new_client_def guest_info_def)
  from broadcast_delivers_or_evicts [OF two_clients_ok d e, of cfg3 "''pc|2''"]
  obtain s' where "broadcast cfg3 ''pc|2'' [1, 0] two_clients = Inr s'" and "registry_ok s'"
    and "clients s' = filter (has_room two_clients) (clients two_clients)"
    and "\<forall>c \<in> set (clients two_clients).
              (has_room two_clients c \<longrightarrow>
                 c \<in> set (clients s') \<and> heap s' c = delivered ''pc|2'' (heap two_clients c)) \<and>
              (\<not> has_room two_clients c \<longrightarrow>
                 c \<notin> set (clients s') \<and> heap s' c = evicted (heap two_clients c) \<and>
                 \<not> ids s' (c_id (heap two_clients c)) \<and>
                 sessionClients s' (c_uuid (heap two_clients c)) = None)"
    by blast
  then show ?thesis
    using two_clients_ok two_clients_room by (simp add: cl f)
qed

section \<open>The registry: connecting\<close>

lemma unchanged_registry_refl [simp]: "unchanged_registry s s"
  by (simp add: unchanged_registry_def)

lemma unchanged_registry_writeErrLog [simp]:
  "unchanged_registry s (writeErrLog a b c s') = unchanged_registry s s'"
  by (simp add: unchanged_registry_def writeErrLog_def)

lemma unchanged_registry_ok:
  "unchanged_registry s s' \<Longrightarrow> registry_ok s' = registry_ok s"
  by (simp add: unchanged_registry_def registry_ok_def id_in_use_def)

lemma unchanged_registry_count:
  "unchanged_registry s s' \<Longrightarrow> same_ip_count s' ip = same_ip_count s ip"
  by (simp add: unchanged_registry_def same_ip_count_def)

lemma unchanged_registry_in_use:
  "unchanged_registry s s' \<Longrightarrow> id_in_use s' = id_in_use s"
  by (simp add: unchanged_registry_def id_in_use_def fun_eq_iff)

lemma unchanged_before_admit [simp]: "unchanged_registry s (before_admit conn info s)"
  by (simp add: before_admit_def)

lemma connect_not_aborted:
  "not_aborted info \<Longrightarrow>
     connect cfg conn info s =
       admit cfg conn (if pi_shadowBanned info then False else ci_Online conn) info
         (before_admit conn info s)"
  by (auto simp: connect_def not_aborted_def before_admit_def)

lemma connect_aborted:
  "\<not> not_aborted info \<Longrightarrow>
     connect cfg conn info s =
       writeErrLog (ci_Ip conn) ''session'' ''player is banned, aborting connection'' s"
  by (auto simp: connect_def not_aborted_def)

lemma logs_writeErrLog [simp]: "logs (writeErrLog a b c s) = logs s @ [ErrLog a b c]"
  by (simp add: writeErrLog_def)

lemma logs_writeLog [simp]: "logs (writeLog a b c d s) = logs s @ [Log a b c d]"
  by (simp add: writeLog_def)

lemma admit_too_many:
  "3 \<le> same_ip_count s (ci_Ip conn) \<Longrightarrow>
     admit cfg conn online info s = writeErrLog (ci_Ip conn) ''session'' ''too many connections'' s"
  by (simp add: admit_def)

lemma admit_full:
  assumes ok: "registry_ok s" and few: "same_ip_count s (ci_Ip conn) < 3"
    and full: "\<forall>i. 1 \<le> i \<and> i \<le> maxID cfg \<longrightarrow> id_in_use s i"
  shows "admit cfg conn online info s = writeErrLog (ci_Ip conn) ''session'' ''room is full'' s"
proof -
  let ?i = "scan_id (ids s) (maxID cfg) 1"
  have used: "ids s = id_in_use s" using ok by (simp add: registry_ok_def fun_eq_iff)
  have "?i = 0"
    using scan_id_result [of "ids s" "maxID cfg" 1 ?i] full used by auto
  then show ?thesis using few by (simp add: admit_def)
qed

lemma admit_least:
  assumes ok: "registry_ok s" and few: "same_ip_count s (ci_Ip conn) < 3"
    and free: "\<not> (\<forall>i. 1 \<le> i \<and> i \<le> maxID cfg \<longrightarrow> id_in_use s i)"
  shows "\<exists>i. 1 \<le> i \<and> i \<le> maxID cfg \<and> \<not> id_in_use s i \<and>
             (\<forall>j. 1 \<le> j \<and> j < i \<longrightarrow> id_in_use s j) \<and>
             admit cfg conn online info s =
               writeLog (ci_Ip conn) ''session'' ''connect'' 200
                 (register (nextRef s) (new_client cfg conn online info i) s)"
proof -
  let ?i = "scan_id (ids s) (maxID cfg) 1"
  have used: "ids s = id_in_use s" using ok by (simp add: registry_ok_def fun_eq_iff)
  from scan_id_result [of "ids s" "maxID cfg" 1 ?i] free used
  have p: "1 \<le> ?i \<and> ?i \<le> maxID cfg \<and> \<not> id_in_use s ?i \<and>
           (\<forall>j. 1 \<le> j \<and> j < ?i \<longrightarrow> id_in_use s j)"
    by auto
  then have "?i \<noteq> 0" by auto
  then have "admit cfg conn online info s =
               writeLog (ci_Ip conn) ''session'' ''connect'' 200
                 (register (nextRef s) (new_client cfg conn online info ?i) s)"
    using few by (simp add: admit_def Let_def)
  with p show ?thesis by blast
qed

lemma map_of_without: "map_of (filter (\<lambda>e. fst e \<noteq> u) xs) u = None"
  by (induction xs) auto

lemma Load_Store [simp]: "Load (Store u c sv) u = Some c"
  by (simp add: Load_def Store_def map_add_def map_of_without)

lemma enter_rejects:
  "3 < server_same_ip sv ip \<Longrightarrow>
     enter env ip c sv = server_errlog (sv_uuid c) ''sess'' ''too many connections from ip'' sv"
  by (simp add: enter_def)

lemma enter_admits:
  assumes "\<not> 3 < server_same_ip sv ip"
  shows "registry (enter env ip c sv)
           = filter (\<lambda>e. fst e \<noteq> sv_uuid c) (registry sv) @ [(sv_uuid c, entered env c sv)]"
    and "lastId (enter env ip c sv) = lastId sv + 1"
  using assms
  by (auto simp: enter_def entered_def Store_def Let_def split: prod.splits)

lemma entered_id [simp]: "sv_id (entered env c sv) = lastId sv"
  by (simp add: entered_def split: prod.splits)

lemma entered_ip [simp]: "sv_ip (entered env c sv) = sv_ip c"
  by (simp add: entered_def split: prod.splits)

lemma server_ids_ok_enter:
  assumes ok: "server_ids_ok sv"
  shows "server_ids_ok (enter env ip c sv)"
proof (cases "3 < server_same_ip sv ip")
  case True
  then show ?thesis using ok by (simp add: enter_rejects server_errlog_def server_ids_ok_def)
next
  case False
  note r = enter_admits [OF False, of env c]
  have below: "\<forall>e \<in> set (registry sv). sv_id (snd e) < lastId sv"
    using ok by (simp add: server_ids_ok_def)
  have d: "distinct (map (\<lambda>e. sv_id (snd e)) (filter (\<lambda>e. fst e \<noteq> sv_uuid c) (registry sv)))"
    using ok by (simp add: server_ids_ok_def distinct_map_filter)
  have fresh: "lastId sv \<notin> (\<lambda>e. sv_id (snd e)) ` set (filter (\<lambda>e. fst e \<noteq> sv_uuid c) (registry sv))"
    using below by auto
  show ?thesis
    unfolding server_ids_ok_def r using d fresh below by auto
qed

lemma joinSessionWs_resolved:
  assumes "resolve env ip token (server_world sv) = (c, False, w)"
  shows "joinSessionWs env ip token sv
           = enter env ip c (evict_prior env c (sv\<lparr>server_world := w\<rparr>))"
  using assms by (simp add: joinSessionWs_def)

lemmas connect_eval =
  guest_connect_def connect_def admit_def guest_conn_def guest_info_def newSessionWs_def
  cfg3_def same_ip_count_def scan_id.simps register_def new_client_def writeLog_def
  writeErrLog_def hello_def Itoa_def nat_digits.simps make_chan_def Let_def

lemmas join_eval =
  joinSessionWs_def resolve_def env0_def evict_prior_def enter_def Load_def Store_def
  server_same_ip_def server_init_def server_errlog_def Let_def

lemma twice_eval:
  "clients twice = [0, 1]" "nextRef twice = 2"
  "c_uuid (heap twice 0) = ''u1''" "c_uuid (heap twice 1) = ''u1''"
  "c_id (heap twice 0) = 1" "c_id (heap twice 1) = 2"
  "closed (c_send (heap twice 0)) = False" "closed (c_send (heap twice 1)) = False"
  "sessionClients twice ''u1'' = Some 1"
  by (simp_all add: twice_def connect_eval)

text \<open>
  Claim C1 at the input where \<open>Session.run\<close> departs from it: the same identity
  connects twice. The connect case never looks the uuid up, so the first client stays
  registered with its id and an open channel next to the second, and \<open>sessionClients\<close>
  is overwritten. When the first client is unregistered later, \<open>deleteClient\<close> deletes
  the uuid's entry, which by then belongs to the second, still registered client.
\<close>

theorem connect_same_identity_keeps_both:
  "clients twice = [0, 1] \<and>
   c_uuid (heap twice 0) = ''u1'' \<and> c_uuid (heap twice 1) = ''u1'' \<and>
   c_id (heap twice 0) = 1 \<and> c_id (heap twice 1) = 2 \<and>
   closed (c_send (heap twice 0)) = False \<and>
   sessionClients twice ''u1'' = Some 1 \<and>
   (\<exists>s'. unregister cfg3 0 twice = Inr s' \<and> clients s' = [1] \<and>
         sessionClients s' ''u1'' = None)"
  by (simp add: twice_def connect_eval unregister_def deleteClient_def close_chan_def)

lemma three_guests_eval:
  "clients three_guests = [0, 1, 2]"
  "same_ip_count three_guests ''ip1'' = 3"
  by (simp_all add: three_guests_def connect_eval)

lemma three_joined_eval:
  "map (\<lambda>e. (fst e, sv_ip (snd e), sv_id (snd e))) (registry three_joined)
     = [(''acct-t1'', ''ip1'', 0), (''acct-t2'', ''ip1'', 1), (''acct-t3'', ''ip1'', 2)]"
  "lastId three_joined = 3"
  by (simp_all add: three_joined_def join_eval)

lemma resolve_ip: "resolve env ip token w = (c, b, w') \<Longrightarrow> sv_ip c = ip"
  by (auto simp: resolve_def Let_def split: if_splits prod.splits)

lemma register_fields:
  "clients (register r c s) = clients s @ [r]" "heap (register r c s) r = c"
  "ids (register r c s) = (ids s)(c_id c := True)"
  "sessionClients (register r c s) (c_uuid c) = Some r"
  by (simp_all add: register_def)

lemma writeLog_fields [simp]:
  "clients (writeLog a b c d s) = clients s" "heap (writeLog a b c d s) = heap s"
  "ids (writeLog a b c d s) = ids s" "sessionClients (writeLog a b c d s) = sessionClients s"
  "nextRef (writeLog a b c d s) = nextRef s"
  by (simp_all add: writeLog_def)

lemma actor_allocation:
  assumes ok: "registry_ok s" and live: "not_aborted info"
    and few: "same_ip_count s (ci_Ip conn) < 3"
  shows "((\<forall>i. 1 \<le> i \<and> i \<le> maxID cfg \<longrightarrow> id_in_use s i) \<longrightarrow>
            unchanged_registry s (connect cfg conn info s) \<and>
            last (logs (connect cfg conn info s)) = ErrLog (ci_Ip conn) ''session'' ''room is full'')
       \<and> (\<not> (\<forall>i. 1 \<le> i \<and> i \<le> maxID cfg \<longrightarrow> id_in_use s i) \<longrightarrow>
            (\<exists>i. 1 \<le> i \<and> i \<le> maxID cfg \<and> \<not> id_in_use s i \<and>
                 (\<forall>j. 1 \<le> j \<and> j < i \<longrightarrow> id_in_use s j) \<and>
                 clients (connect cfg conn info s) = clients s @ [nextRef s] \<and>
                 c_id (heap (connect cfg conn info s) (nextRef s)) = i \<and>
                 c_ip (heap (connect cfg conn info s) (nextRef s)) = ci_Ip conn \<and>
                 ids (connect cfg conn info s) = (ids s)(i := True)) \<and>
            registry_ok (connect cfg conn info s))"
proof -
  let ?s1 = "before_admit conn info s"
  let ?on = "if pi_shadowBanned info then False else ci_Online conn"
  have u: "unchanged_registry s ?s1" by simp
  have ok1: "registry_ok ?s1" using ok unchanged_registry_ok [OF u] by simp
  have few1: "same_ip_count ?s1 (ci_Ip conn) < 3"
    using few unchanged_registry_count [OF u] by simp
  have use1: "id_in_use ?s1 = id_in_use s" by (rule unchanged_registry_in_use [OF u])
  have c: "connect cfg conn info s = admit cfg conn ?on info ?s1"
    by (rule connect_not_aborted [OF live])
  have f: "clients ?s1 = clients s" "nextRef ?s1 = nextRef s" "ids ?s1 = ids s"
    using u by (simp_all add: unchanged_registry_def)
  show ?thesis
  proof (intro conjI impI)
    assume full: "\<forall>i. 1 \<le> i \<and> i \<le> maxID cfg \<longrightarrow> id_in_use s i"
    then have "admit cfg conn ?on info ?s1
                = writeErrLog (ci_Ip conn) ''session'' ''room is full'' ?s1"
      using admit_full [OF ok1 few1, of cfg ?on info] use1 by simp
    then show "unchanged_registry s (connect cfg conn info s)"
      and "last (logs (connect cfg conn info s)) = ErrLog (ci_Ip conn) ''session'' ''room is full''"
      by (simp_all add: c)
  next
    assume free: "\<not> (\<forall>i. 1 \<le> i \<and> i \<le> maxID cfg \<longrightarrow> id_in_use s i)"
    then have free1: "\<not> (\<forall>i. 1 \<le> i \<and> i \<le> maxID cfg \<longrightarrow> id_in_use ?s1 i)"
      by (simp add: use1)
    from admit_least [OF ok1 few1 free1, of ?on info]
    obtain i where i: "1 \<le> i" "i \<le> maxID cfg" "\<not> id_in_use s i"
        "\<forall>j. 1 \<le> j \<and> j < i \<longrightarrow> id_in_use s j"
      and a: "admit cfg conn ?on info ?s1 =
               writeLog (ci_Ip conn) ''session'' ''connect'' 200
                 (register (nextRef ?s1) (new_client cfg conn ?on info i) ?s1)"
      by (auto simp: use1)
    have "clients (connect cfg conn info s) = clients s @ [nextRef s]"
      and "c_id (heap (connect cfg conn info s) (nextRef s)) = i"
      and "c_ip (heap (connect cfg conn info s) (nextRef s)) = ci_Ip conn"
      and "ids (connect cfg conn info s) = (ids s)(i := True)"
      by (simp_all add: c a register_fields f new_client_def)
    with i show "\<exists>i. 1 \<le> i \<and> i \<le> maxID cfg \<and> \<not> id_in_use s i \<and>
                 (\<forall>j. 1 \<le> j \<and> j < i \<longrightarrow> id_in_use s j) \<and>
                 clients (connect cfg conn info s) = clients s @ [nextRef s] \<and>
                 c_id (heap (connect cfg conn info s) (nextRef s)) = i \<and>
                 c_ip (heap (connect cfg conn info s) (nextRef s)) = ci_Ip conn \<and>
                 ids (connect cfg conn info s) = (ids s)(i := True)"
      by blast
    show "registry_ok (connect cfg conn info s)"
      by (rule registry_ok_connect [OF ok])
  qed
qed

lemma server_allocation:
  assumes r: "resolve env ip token (server_world sv) = (c, False, w)"
    and few: "\<not> 3 < server_same_ip (evict_prior env c (sv\<lparr>server_world := w\<rparr>)) ip"
  shows "Load (joinSessionWs env ip token sv) (sv_uuid c)
           = Some (entered env c (evict_prior env c (sv\<lparr>server_world := w\<rparr>)))"
    and "lastId (joinSessionWs env ip token sv)
           = lastId (evict_prior env c (sv\<lparr>server_world := w\<rparr>)) + 1"
proof -
  let ?sv1 = "evict_prior env c (sv\<lparr>server_world := w\<rparr>)"
  note j = joinSessionWs_resolved [OF r]
  note e = enter_admits [OF few, of env c]
  show "Load (joinSessionWs env ip token sv) (sv_uuid c) = Some (entered env c ?sv1)"
    unfolding j Load_def e by (simp add: map_add_def map_of_without)
  show "lastId (joinSessionWs env ip token sv) = lastId ?sv1 + 1"
    unfolding j e ..
qed

text \<open>
  Claim C2, amended to what each registry does. In \<open>Session.run\<close>, for a connection
  that passes the ban and address checks: when every id of 1..\<open>maxID\<close> is held by a
  registered client the connection is rejected (\<open>room is full\<close>) and nothing is
  installed; otherwise the client is installed with the smallest id of 1..\<open>maxID\<close>
  that no registered client holds, and the registry invariant, with it the uniqueness of
  ids, is kept. In \<open>joinSessionWs\<close>, for a connection that is not banned and passes the
  address check: the client is stored with the value of the counter \<open>lastId\<close>, the
  counter grows by one, and ids stay different; there is no id space and no rejection
  for lack of an id.
\<close>

theorem id_allocation:
  "(registry_ok s \<and> not_aborted info \<and> same_ip_count s (ci_Ip conn) < 3 \<longrightarrow>
      ((\<forall>i. 1 \<le> i \<and> i \<le> maxID cfg \<longrightarrow> id_in_use s i) \<longrightarrow>
          unchanged_registry s (connect cfg conn info s) \<and>
          last (logs (connect cfg conn info s)) = ErrLog (ci_Ip conn) ''session'' ''room is full'') \<and>
      (\<not> (\<forall>i. 1 \<le> i \<and> i \<le> maxID cfg \<longrightarrow> id_in_use s i) \<longrightarrow>
          (\<exists>i. 1 \<le> i \<and> i \<le> maxID cfg \<and> \<not> id_in_use s i \<and>
               (\<forall>j. 1 \<le> j \<and> j < i \<longrightarrow> id_in_use s j) \<and>
               clients (connect cfg conn info s) = clients s @ [nextRef s] \<and>
               c_id (heap (connect cfg conn info s) (nextRef s)) = i \<and>
               ids (connect cfg conn info s) = (ids s)(i := True)) \<and>
          registry_ok (connect cfg conn info s)))
   \<and> (resolve env ip token (server_world sv) = (c, False, w) \<and>
       \<not> 3 < server_same_ip (evict_prior env c (sv\<lparr>server_world := w\<rparr>)) ip \<longrightarrow>
         (\<exists>c'. Load (joinSessionWs env ip token sv) (sv_uuid c) = Some c' \<and>
               sv_id c' = lastId (evict_prior env c (sv\<lparr>server_world := w\<rparr>))) \<and>
         lastId (joinSessionWs env ip token sv)
           = lastId (evict_prior env c (sv\<lparr>server_world := w\<rparr>)) + 1 \<and>
         (server_ids_ok (evict_prior env c (sv\<lparr>server_world := w\<rparr>)) \<longrightarrow>
            server_ids_ok (joinSessionWs env ip token sv)))"
proof (intro conjI impI)
  assume a: "registry_ok s \<and> not_aborted info \<and> same_ip_count s (ci_Ip conn) < 3"
  then have ok: "registry_ok s" and live: "not_aborted info"
    and few: "same_ip_count s (ci_Ip conn) < 3" by auto
  note act = actor_allocation [OF ok live few, of cfg]
  {
    assume "\<forall>i. 1 \<le> i \<and> i \<le> maxID cfg \<longrightarrow> id_in_use s i"
    with act show "unchanged_registry s (connect cfg conn info s)"
      and "last (logs (connect cfg conn info s)) = ErrLog (ci_Ip conn) ''session'' ''room is full''"
      by blast+
  }
  {
    assume "\<not> (\<forall>i. 1 \<le> i \<and> i \<le> maxID cfg \<longrightarrow> id_in_use s i)"
    with act show "\<exists>i. 1 \<le> i \<and> i \<le> maxID cfg \<and> \<not> id_in_use s i \<and>
               (\<forall>j. 1 \<le> j \<and> j < i \<longrightarrow> id_in_use s j) \<and>
               clients (connect cfg conn info s) = clients s @ [nextRef s] \<and>
               c_id (heap (connect cfg conn info s) (nextRef s)) = i \<and>
               ids (connect cfg conn info s) = (ids s)(i := True)"
      and "registry_ok (connect cfg conn info s)"
      by blast+
  }
next
  assume b: "resolve env ip token (server_world sv) = (c, False, w) \<and>
       \<not> 3 < server_same_ip (evict_prior env c (sv\<lparr>server_world := w\<rparr>)) ip"
  then have r: "resolve env ip token (server_world sv) = (c, False, w)"
    and few: "\<not> 3 < server_same_ip (evict_prior env c (sv\<lparr>server_world := w\<rparr>)) ip"
    by auto
  note srv = server_allocation [OF r few]
  show "\<exists>c'. Load (joinSessionWs env ip token sv) (sv_uuid c) = Some c' \<and>
               sv_id c' = lastId (evict_prior env c (sv\<lparr>server_world := w\<rparr>))"
    using srv(1) by simp
  show "lastId (joinSessionWs env ip token sv)
           = lastId (evict_prior env c (sv\<lparr>server_world := w\<rparr>)) + 1"
    by (rule srv(2))
  {
    assume "server_ids_ok (evict_prior env c (sv\<lparr>server_world := w\<rparr>))"
    then show "server_ids_ok (joinSessionWs env ip token sv)"
      unfolding joinSessionWs_resolved [OF r] by (rule server_ids_ok_enter)
  }
qed

text \<open>
  Claim C2 as stated fails on \<open>joinSessionWs\<close>: the first client of a fresh server
  is given the id 0, which is in no range 1..N.
\<close>

theorem lastId_counter_counterexample:
  "map (\<lambda>e. sv_id (snd e)) (registry (joinSessionWs env0 ''ip1'' ''t1'' (server_init ()))) = [0] \<and>
   map (\<lambda>e. sv_id (snd e)) (registry three_joined) = [0, 1, 2]"
  by (simp add: three_joined_def join_eval)

lemma two_clients_in_use: "id_in_use two_clients i = (i = 1 \<or> i = 2)"
  by (auto simp: id_in_use_def two_clients_def new_client_def)

lemma resolve_t4:
  "resolve env0 ''ip1'' ''t4'' (server_world three_joined)
     = (\<lparr>sv_ip = ''ip1'', sv_uuid = ''acct-t4'', sv_name = ''t4'', sv_rank = 0, sv_badge = [],
          sv_muted = False, sv_account = True, sv_id = 0, sv_spriteName = [],
          sv_spriteIndex = 0, sv_systemName = []\<rparr>, False, ())"
  by (simp add: resolve_def env0_def)

text \<open>
  With the ids 1 and 2 held, a third guest is given 3; the fourth account on the server
  is given the counter value 3.
\<close>

theorem id_allocation_witness:
  "registry_ok two_clients \<and> not_aborted (guest_info ''u3'') \<and>
   same_ip_count two_clients (ci_Ip (guest_conn ''ip3'')) < 3 \<and>
   c_id (heap (connect cfg3 (guest_conn ''ip3'') (guest_info ''u3'') two_clients)
          (nextRef two_clients)) = 3 \<and>
   registry_ok (connect cfg3 (guest_conn ''ip3'') (guest_info ''u3'') two_clients) \<and>
   lastId three_joined = 3 \<and>
   lastId (joinSessionWs env0 ''ip1'' ''t4'' three_joined) = 4"
proof -
  let ?c = "\<lparr>sv_ip = ''ip1'', sv_uuid = ''acct-t4'', sv_name = ''t4'', sv_rank = 0,
             sv_badge = [], sv_muted = False, sv_account = True, sv_id = 0,
             sv_spriteName = [], sv_spriteIndex = 0, sv_systemName = []\<rparr>"
  have live: "not_aborted (guest_info ''u3'')"
    by (simp add: not_aborted_def guest_info_def)
  have few: "same_ip_count two_clients (ci_Ip (guest_conn ''ip3'')) < 3"
    by (simp add: same_ip_count_def two_clients_def)
  have free: "\<not> (\<forall>i. 1 \<le> i \<and> i \<le> maxID cfg3 \<longrightarrow> id_in_use two_clients i)"
    by (simp add: two_clients_in_use cfg3_def) (rule exI [of _ 3], simp)
  have ev: "evict_prior env0 ?c (three_joined\<lparr>server_world := ()\<rparr>) = three_joined"
    by (simp add: three_joined_def join_eval)
  have cnt: "\<not> 3 < server_same_ip three_joined ''ip1''"
    by (simp add: three_joined_def join_eval)
  note t = id_allocation [where s = two_clients and info = "guest_info ''u3''"
      and conn = "guest_conn ''ip3''" and cfg = cfg3 and env = env0 and ip = "''ip1''"
      and token = "''t4''" and sv = three_joined and c = ?c and w = "()"]
  from t two_clients_ok live few free
  obtain i where i: "1 \<le> i" "i \<le> maxID cfg3" "\<not> id_in_use two_clients i"
    and cid: "c_id (heap (connect cfg3 (guest_conn ''ip3'') (guest_info ''u3'') two_clients)
                (nextRef two_clients)) = i"
    and ok': "registry_ok (connect cfg3 (guest_conn ''ip3'') (guest_info ''u3'') two_clients)"
    by blast
  have "i = 3" using i by (simp add: two_clients_in_use cfg3_def)
  moreover have "lastId (joinSessionWs env0 ''ip1'' ''t4'' three_joined) = lastId three_joined + 1"
    using t resolve_t4 cnt by (simp add: ev)
  ultimately show ?thesis
    using two_clients_ok live few cid ok' three_joined_eval(2) by simp
qed

text \<open>
  Claim C9, amended to what each registry does. In \<open>Session.run\<close> a connection from
  an address that 3 or more registered clients share is rejected
  (\<open>too many connections\<close>) and the registry is unchanged, while a connection from an
  address with fewer is installed when an id is free. In \<open>joinSessionWs\<close> the
  connection is rejected only when more than 3 registered clients share the address
  (counted after the eviction of a prior client of the same uuid); with 3 or fewer the
  client is stored.
\<close>

theorem same_address_limit:
  "(not_aborted info \<and> 3 \<le> same_ip_count s (ci_Ip conn) \<longrightarrow>
      unchanged_registry s (connect cfg conn info s) \<and>
      last (logs (connect cfg conn info s))
        = ErrLog (ci_Ip conn) ''session'' ''too many connections'')
   \<and> (registry_ok s \<and> not_aborted info \<and> same_ip_count s (ci_Ip conn) < 3 \<and>
       \<not> (\<forall>i. 1 \<le> i \<and> i \<le> maxID cfg \<longrightarrow> id_in_use s i) \<longrightarrow>
         clients (connect cfg conn info s) = clients s @ [nextRef s] \<and>
         c_ip (heap (connect cfg conn info s) (nextRef s)) = ci_Ip conn)
   \<and> (resolve env ip token (server_world sv) = (c, False, w) \<longrightarrow>
        (3 < server_same_ip (evict_prior env c (sv\<lparr>server_world := w\<rparr>)) ip \<longrightarrow>
           joinSessionWs env ip token sv
             = server_errlog (sv_uuid c) ''sess'' ''too many connections from ip''
                 (evict_prior env c (sv\<lparr>server_world := w\<rparr>))) \<and>
        (\<not> 3 < server_same_ip (evict_prior env c (sv\<lparr>server_world := w\<rparr>)) ip \<longrightarrow>
           (\<exists>c'. Load (joinSessionWs env ip token sv) (sv_uuid c) = Some c' \<and>
                 sv_ip c' = ip)))"
proof (intro conjI impI)
  assume a: "not_aborted info \<and> 3 \<le> same_ip_count s (ci_Ip conn)"
  let ?s1 = "before_admit conn info s"
  have u: "unchanged_registry s ?s1" by simp
  have "3 \<le> same_ip_count ?s1 (ci_Ip conn)"
    using a unchanged_registry_count [OF u] by simp
  then have "connect cfg conn info s
      = writeErrLog (ci_Ip conn) ''session'' ''too many connections'' ?s1"
    using a by (simp add: connect_not_aborted admit_too_many)
  then show "unchanged_registry s (connect cfg conn info s)"
    and "last (logs (connect cfg conn info s))
           = ErrLog (ci_Ip conn) ''session'' ''too many connections''"
    by simp_all
next
  assume b: "registry_ok s \<and> not_aborted info \<and> same_ip_count s (ci_Ip conn) < 3 \<and>
       \<not> (\<forall>i. 1 \<le> i \<and> i \<le> maxID cfg \<longrightarrow> id_in_use s i)"
  then have ok: "registry_ok s" and live: "not_aborted info"
    and few: "same_ip_count s (ci_Ip conn) < 3"
    and free: "\<not> (\<forall>i. 1 \<le> i \<and> i \<le> maxID cfg \<longrightarrow> id_in_use s i)"
    by auto
  from actor_allocation [OF ok live few, of cfg] free
  show "clients (connect cfg conn info s) = clients s @ [nextRef s]"
    and "c_ip (heap (connect cfg conn info s) (nextRef s)) = ci_Ip conn"
    by blast+
next
  assume r: "resolve env ip token (server_world sv) = (c, False, w)"
  {
    assume "3 < server_same_ip (evict_prior env c (sv\<lparr>server_world := w\<rparr>)) ip"
    then show "joinSessionWs env ip token sv
             = server_errlog (sv_uuid c) ''sess'' ''too many connections from ip''
                 (evict_prior env c (sv\<lparr>server_world := w\<rparr>))"
      unfolding joinSessionWs_resolved [OF r] by (rule enter_rejects)
  }
  {
    assume few: "\<not> 3 < server_same_ip (evict_prior env c (sv\<lparr>server_world := w\<rparr>)) ip"
    have "sv_ip (entered env c (evict_prior env c (sv\<lparr>server_world := w\<rparr>))) = ip"
      using resolve_ip [OF r] by simp
    then show "\<exists>c'. Load (joinSessionWs env ip token sv) (sv_uuid c) = Some c' \<and> sv_ip c' = ip"
      using server_allocation(1) [OF r few] by simp
  }
qed

text \<open>
  Claim C9 as stated fails on \<open>joinSessionWs\<close>: with three clients registered from
  one address, the fourth is stored too.
\<close>

theorem fourth_connection_counterexample:
  "server_same_ip three_joined ''ip1'' = 3 \<and>
   map fst (registry (joinSessionWs env0 ''ip1'' ''t4'' three_joined))
     = [''acct-t1'', ''acct-t2'', ''acct-t3'', ''acct-t4''] \<and>
   server_same_ip (joinSessionWs env0 ''ip1'' ''t4'' three_joined) ''ip1'' = 4"
  by (simp add: three_joined_def join_eval)

lemma four_joined_eval:
  "server_same_ip four_joined ''ip1'' = 4"
  "map fst (registry four_joined) = [''acct-t1'', ''acct-t2'', ''acct-t3'', ''acct-t4'']"
  by (simp_all add: four_joined_def join_eval)

lemma resolve_t5:
  "resolve env0 ''ip1'' ''t5'' (server_world four_joined)
     = (\<lparr>sv_ip = ''ip1'', sv_uuid = ''acct-t5'', sv_name = ''t5'', sv_rank = 0, sv_badge = [],
          sv_muted = False, sv_account = True, sv_id = 0, sv_spriteName = [],
          sv_spriteIndex = 0, sv_systemName = []\<rparr>, False, ())"
  by (simp add: resolve_def env0_def)

text \<open>
  The fourth guest of one address is rejected by \<open>Session.run\<close>; the fifth account of
  one address is rejected by \<open>joinSessionWs\<close>.
\<close>

theorem same_address_limit_witness:
  "not_aborted (guest_info ''u4'') \<and>
   same_ip_count three_guests (ci_Ip (guest_conn ''ip1'')) = 3 \<and>
   unchanged_registry three_guests
     (connect cfg3 (guest_conn ''ip1'') (guest_info ''u4'') three_guests) \<and>
   clients (connect cfg3 (guest_conn ''ip1'') (guest_info ''u4'') three_guests) = [0, 1, 2] \<and>
   server_same_ip four_joined ''ip1'' = 4 \<and>
   registry (joinSessionWs env0 ''ip1'' ''t5'' four_joined) = registry four_joined"
proof -
  let ?c = "\<lparr>sv_ip = ''ip1'', sv_uuid = ''acct-t5'', sv_name = ''t5'', sv_rank = 0,
             sv_badge = [], sv_muted = False, sv_account = True, sv_id = 0,
             sv_spriteName = [], sv_spriteIndex = 0, sv_systemName = []\<rparr>"
  have live: "not_aborted (guest_info ''u4'')"
    by (simp add: not_aborted_def guest_info_def)
  have cnt: "same_ip_count three_guests (ci_Ip (guest_conn ''ip1'')) = 3"
    by (simp add: three_guests_eval guest_conn_def)
  have ev: "evict_prior env0 ?c (four_joined\<lparr>server_world := ()\<rparr>) = four_joined"
    by (simp add: four_joined_def join_eval)
  note t = same_address_limit [where s = three_guests and info = "guest_info ''u4''"
      and conn = "guest_conn ''ip1''" and cfg = cfg3 and env = env0 and ip = "''ip1''"
      and token = "''t5''" and sv = four_joined and c = ?c and w = "()"]
  have u: "unchanged_registry three_guests
     (connect cfg3 (guest_conn ''ip1'') (guest_info ''u4'') three_guests)"
    using t live cnt by simp
  have "joinSessionWs env0 ''ip1'' ''t5'' four_joined
      = server_errlog ''acct-t5'' ''sess'' ''too many connections from ip'' four_joined"
    using t resolve_t5 four_joined_eval(1) by (simp add: ev)
  then have "registry (joinSessionWs env0 ''ip1'' ''t5'' four_joined) = registry four_joined"
    by (simp add: server_errlog_def)
  then show ?thesis
    using live cnt u four_joined_eval(1) three_guests_eval(1)
    by (simp add: unchanged_registry_def)
qed

section \<open>The dispatcher\<close>

lemmas split_eval = strings_Split_def split_at.simps




lemma heap_writeErrLog [simp]: "heap (writeErrLog a b c s) = heap s"
  by (simp add: writeErrLog_def)


lemma processMsgs_frame_error:
  "processMsgs cfg H msg s =
     (case frame_error (msg_data msg) of
        Some e \<Rightarrow> Inr ([e], s)
      | None \<Rightarrow>
          processAll cfg H (strings_Split (msg_data msg) (mdelim cfg)) (msg_sender msg) s)"
  by (simp add: processMsgs_def frame_error_def)

text \<open>
  Claim C7. \<open>processMsgs\<close> checks a frame in this order: a frame of more than 4096
  bytes is rejected as \<open>bad request size\<close> whatever its bytes are; otherwise a frame
  with a byte below 32 is rejected as \<open>bad byte sequence\<close> whether or not it is
  UTF-8; otherwise a frame that is not valid UTF-8 is rejected as \<open>invalid UTF-8\<close>;
  only a frame that passes all three is split and dispatched. A rejected frame yields
  exactly one error and the state is returned as it was, for any handlers, so no
  sub-message reached a handler; \<open>run\<close> then writes that one error to the log.
\<close>

theorem frame_validation_order:
  "(4096 < length (msg_data msg) \<longrightarrow>
      processMsgs cfg H msg s = Inr ([''bad request size''], s))
   \<and> (length (msg_data msg) \<le> 4096 \<and> (\<exists>v \<in> set (msg_data msg). byte v < 32) \<longrightarrow>
        processMsgs cfg H msg s = Inr ([''bad byte sequence''], s))
   \<and> (length (msg_data msg) \<le> 4096 \<and> \<not> (\<exists>v \<in> set (msg_data msg). byte v < 32) \<and>
       \<not> utf8_Valid (msg_data msg) \<longrightarrow>
        processMsgs cfg H msg s = Inr ([''invalid UTF-8''], s))
   \<and> (length (msg_data msg) \<le> 4096 \<and> \<not> (\<exists>v \<in> set (msg_data msg). byte v < 32) \<and>
       utf8_Valid (msg_data msg) \<longrightarrow>
        processMsgs cfg H msg s =
          processAll cfg H (strings_Split (msg_data msg) (mdelim cfg)) (msg_sender msg) s)
   \<and> (\<forall>e. frame_error (msg_data msg) = Some e \<longrightarrow>
        processMsgs cfg H msg s = Inr ([e], s) \<and>
        process_message cfg H msg s =
          Inr (writeErrLog (c_ip (heap s (msg_sender msg))) ''session'' e s))"
proof (intro conjI impI allI)
  assume "4096 < length (msg_data msg)"
  then show "processMsgs cfg H msg s = Inr ([''bad request size''], s)"
    by (simp add: processMsgs_def)
next
  assume "length (msg_data msg) \<le> 4096 \<and> (\<exists>v \<in> set (msg_data msg). byte v < 32)"
  then show "processMsgs cfg H msg s = Inr ([''bad byte sequence''], s)"
    by (simp add: processMsgs_def)
next
  assume "length (msg_data msg) \<le> 4096 \<and> \<not> (\<exists>v \<in> set (msg_data msg). byte v < 32) \<and>
       \<not> utf8_Valid (msg_data msg)"
  then show "processMsgs cfg H msg s = Inr ([''invalid UTF-8''], s)"
    by (simp add: processMsgs_def)
next
  assume "length (msg_data msg) \<le> 4096 \<and> \<not> (\<exists>v \<in> set (msg_data msg). byte v < 32) \<and>
       utf8_Valid (msg_data msg)"
  then show "processMsgs cfg H msg s =
          processAll cfg H (strings_Split (msg_data msg) (mdelim cfg)) (msg_sender msg) s"
    by (simp add: processMsgs_def)
next
  fix e assume e: "frame_error (msg_data msg) = Some e"
  then show p: "processMsgs cfg H msg s = Inr ([e], s)"
    by (simp add: processMsgs_frame_error)
  show "process_message cfg H msg s =
          Inr (writeErrLog (c_ip (heap s (msg_sender msg))) ''session'' e s)"
    by (simp add: process_message_def p)
qed

lemma frame_error_examples:
  "frame_error long_frame = Some ''bad request size''"
  "frame_error [CHR ''a'', CHR 0x0A, CHR 0xFF] = Some ''bad byte sequence''"
  "frame_error [CHR ''a'', CHR 0xFF] = Some ''invalid UTF-8''"
  "frame_error ''name|Alice~bogus'' = None"
  by (simp_all add: frame_error_def long_frame_def byte_def utf8_Valid.simps)

lemma frame_sel [simp]: "msg_data (frame d c) = d" "msg_sender (frame d c) = c"
  by (simp_all add: frame_def)

text \<open>
  The too long frame of control bytes fails on its size; a frame with a line feed and the
  byte \<open>FF\<close> fails on the line feed; a frame with the byte \<open>FF\<close> alone is invalid
  UTF-8.
\<close>

theorem frame_validation_order_witness:
  "processMsgs cfg3 quiet (frame long_frame 1) two_clients
     = Inr ([''bad request size''], two_clients) \<and>
   processMsgs cfg3 quiet (frame [CHR ''a'', CHR 0x0A, CHR 0xFF] 1) two_clients
     = Inr ([''bad byte sequence''], two_clients) \<and>
   processMsgs cfg3 quiet (frame [CHR ''a'', CHR 0xFF] 1) two_clients
     = Inr ([''invalid UTF-8''], two_clients) \<and>
   process_message cfg3 quiet (frame [CHR ''a'', CHR 0xFF] 1) two_clients
     = Inr (writeErrLog (c_ip (heap two_clients 1)) ''session'' ''invalid UTF-8'' two_clients)"
proof -
  have e1: "frame_error (msg_data (frame long_frame 1)) = Some ''bad request size''"
    and e2: "frame_error (msg_data (frame [CHR ''a'', CHR 0x0A, CHR 0xFF] 1))
               = Some ''bad byte sequence''"
    and e3: "frame_error (msg_data (frame [CHR ''a'', CHR 0xFF] 1)) = Some ''invalid UTF-8''"
    by (simp_all only: frame_sel frame_error_examples)
  from frame_validation_order [of "frame long_frame 1" cfg3 quiet two_clients] e1
  have r1: "processMsgs cfg3 quiet (frame long_frame 1) two_clients
     = Inr ([''bad request size''], two_clients)"
    by blast
  from frame_validation_order [of "frame [CHR ''a'', CHR 0x0A, CHR 0xFF] 1" cfg3 quiet two_clients] e2
  have r2: "processMsgs cfg3 quiet (frame [CHR ''a'', CHR 0x0A, CHR 0xFF] 1) two_clients
     = Inr ([''bad byte sequence''], two_clients)"
    by blast
  from frame_validation_order [of "frame [CHR ''a'', CHR 0xFF] 1" cfg3 quiet two_clients] e3
  have r3: "processMsgs cfg3 quiet (frame [CHR ''a'', CHR 0xFF] 1) two_clients
       = Inr ([''invalid UTF-8''], two_clients) \<and>
     process_message cfg3 quiet (frame [CHR ''a'', CHR 0xFF] 1) two_clients
       = Inr (writeErrLog (c_ip (heap two_clients (msg_sender (frame [CHR ''a'', CHR 0xFF] 1))))
               ''session'' ''invalid UTF-8'' two_clients)"
    by blast
  show ?thesis
    using r1 r2 r3 by (simp only: frame_sel simp_thms)
qed

lemma conclude_error [simp]: "conclude m sender (Some e, s1) = Inr (Some e, s1)"
  by (simp add: conclude_def)

lemma conclude_ok [simp]:
  "conclude m sender (None, s1)
     = Inr (None, writeLog (c_ip (heap s1 sender)) ''session'' m 200 s1)"
  by (simp add: conclude_def)


lemma pt_case_ok [simp]:
  "pt_case cfg m sender (None, s1)
     = Inr (None, writeLog (c_ip (heap s1 sender)) ''session'' m 200 s1)"
  by (simp add: pt_case_def)




text \<open>
  The scenario of the specification: a \<open>name\<close> sub-message and an unknown command in
  one frame. The name is set and logged, the unknown command is logged as an error, the
  sender stays registered with its channel open.
\<close>

lemma name_and_unknown_command:
  "map_sum id (\<lambda>s. (logs s, c_name (heap s 1), clients s, closed (c_send (heap s 1))))
     (process_message cfg3 quiet (frame ''name|Alice~bogus'' 1) two_clients)
   = Inr ([Log ''ip2'' ''session'' ''name|Alice'' 200, ErrLog ''ip2'' ''session'' ''bogus''],
          ''Alice'', [0, 1], False)"
  by (simp add: process_message_def processMsgs_def frame_def byte_def utf8_Valid.simps
      split_eval cfg3_def processMsg_def quiet_def conclude_def writeLog_def writeErrLog_def
      two_clients_def new_client_def guest_conn_def make_chan_def)

end
